theory Spec2Isabelle
  imports Complex_Main "HOL-Library.Log_Nat"
begin

section \<open>Request values\<close>

text \<open>
  The handlers read their inputs from a parsed JSON body. The fields are declared with
  TypeScript types, but those are erased at run time and the handlers test the values
  themselves (truthiness, \<open>typeof\<close>, \<open>=== undefined\<close>), so a field is modelled as the
  scalar JSON value it holds; \<open>JUndefined\<close> is an absent field. Arrays and objects are
  outside the model. A number is what \<open>JSON.parse\<close> can give: a finite value or an infinity,
  never \<open>NaN\<close>.
\<close>

datatype number = Finite rat | PosInfinity | NegInfinity

datatype json = JUndefined | JNull | JBool bool | JNumber number | JStr string

abbreviation JNum :: "rat \<Rightarrow> json" where
  "JNum q \<equiv> JNumber (Finite q)"

datatype js_type = TUndefined | TObject | TBoolean | TNumber | TString

fun typeof :: "json \<Rightarrow> js_type" where
  "typeof JUndefined = TUndefined"
| "typeof JNull = TObject"
| "typeof (JBool b) = TBoolean"
| "typeof (JNumber n) = TNumber"
| "typeof (JStr s) = TString"

text \<open>JavaScript truthiness: \<open>!v\<close> is \<open>\<not> truthy v\<close>.\<close>

fun truthy :: "json \<Rightarrow> bool" where
  "truthy JUndefined = False"
| "truthy JNull = False"
| "truthy (JBool b) = b"
| "truthy (JNumber n) = (n \<noteq> Finite 0)"
| "truthy (JStr s) = (s \<noteq> [])"

text \<open>\<open>Number.isInteger\<close>, and the comparison \<open>n <= 0\<close>.\<close>

fun isInteger :: "number \<Rightarrow> bool" where
  "isInteger (Finite q) = (of_int \<lfloor>q\<rfloor> = q)"
| "isInteger n = False"

fun le_zero :: "number \<Rightarrow> bool" where
  "le_zero (Finite q) = (q \<le> 0)"
| "le_zero PosInfinity = False"
| "le_zero NegInfinity = True"

text \<open>
  The values better-sqlite3 accepts as a bound parameter: numbers, strings and null
  (undefined binds as null); a boolean makes \<open>run\<close> throw a TypeError.
\<close>

fun bindable :: "json \<Rightarrow> bool" where
  "bindable (JBool b) = False"
| "bindable v = True"

section \<open>The request body as sent\<close>

text \<open>
  \<open>express.json()\<close> parses the body before a handler runs. A number in the body is a
  decimal, which \<open>JSON.parse\<close> rounds to the nearest IEEE double (ties to the even
  significand), to an infinity beyond the largest one. \<open>pow2 e\<close> is \<open>2\<close> to the power \<open>e\<close>,
  \<open>ilog2 a\<close> the binary exponent of a positive \<open>a\<close>.
\<close>

definition pow2 :: "int \<Rightarrow> rat" where
  "pow2 e = 2 powi e"

definition ilog2 :: "rat \<Rightarrow> int" where
  "ilog2 a =
     (case quotient_of a of
        (n, d) \<Rightarrow> (let k = bitlen n - bitlen d in if pow2 k \<le> a then k else k - 1))"

definition round_half_even :: "rat \<Rightarrow> int" where
  "round_half_even x =
     (let f = \<lfloor>x\<rfloor>; r = x - of_int f
      in if r < 1 / 2 then f else if 1 / 2 < r then f + 1 else if even f then f else f + 1)"

definition to_double :: "rat \<Rightarrow> number" where
  "to_double q =
     (if q = 0 then Finite 0
      else
        (let a = \<bar>q\<bar>;
             e = max (- 1074) (ilog2 a - 52);
             v = of_int (round_half_even (a / pow2 e)) * pow2 e
         in if pow2 1024 \<le> v then (if 0 < q then PosInfinity else NegInfinity)
            else Finite (if 0 < q then v else - v)))"

text \<open>The numbers that are IEEE doubles: a significand below \<open>2^53\<close> and an exponent in range.\<close>

definition is_double :: "rat \<Rightarrow> bool" where
  "is_double q = (\<exists>m e. \<bar>m\<bar> < 2 ^ 53 \<and> - 1074 \<le> e \<and> e \<le> 971 \<and> q = of_int m * pow2 e)"

text \<open>A field of the body as the client wrote it, and what the parser hands on.\<close>

datatype body_value = BAbsent | BNull | BBool bool | BNumber rat | BString string

fun express_json :: "body_value \<Rightarrow> json" where
  "express_json BAbsent = JUndefined"
| "express_json BNull = JNull"
| "express_json (BBool b) = JBool b"
| "express_json (BNumber q) = JNumber (to_double q)"
| "express_json (BString t) = JStr t"

section \<open>The e-mail pattern\<close>

text \<open>
  \<open>/^[^\s@]+@[^\s@]+\.[^\s@]+$/\<close> is transcribed as a regular expression over character
  classes and matched by repeated left quotients.
\<close>

datatype rx = Nothing | Empty | Cls "char \<Rightarrow> bool" | Cat rx rx | Alt rx rx | Star rx

fun accepts_empty :: "rx \<Rightarrow> bool" where
  "accepts_empty Nothing = False"
| "accepts_empty Empty = True"
| "accepts_empty (Cls p) = False"
| "accepts_empty (Cat r1 r2) = (accepts_empty r1 \<and> accepts_empty r2)"
| "accepts_empty (Alt r1 r2) = (accepts_empty r1 \<or> accepts_empty r2)"
| "accepts_empty (Star r) = True"

fun quotient :: "char \<Rightarrow> rx \<Rightarrow> rx" where
  "quotient c Nothing = Nothing"
| "quotient c Empty = Nothing"
| "quotient c (Cls p) = (if p c then Empty else Nothing)"
| "quotient c (Cat r1 r2) =
     (if accepts_empty r1 then Alt (Cat (quotient c r1) r2) (quotient c r2)
      else Cat (quotient c r1) r2)"
| "quotient c (Alt r1 r2) = Alt (quotient c r1) (quotient c r2)"
| "quotient c (Star r) = Cat (quotient c r) (Star r)"

fun rx_test :: "rx \<Rightarrow> string \<Rightarrow> bool" where
  "rx_test r [] = accepts_empty r"
| "rx_test r (c # cs) = rx_test (quotient c r) cs"

definition Plus :: "rx \<Rightarrow> rx" where
  "Plus r = Cat r (Star r)"

text \<open>
  \<open>\s\<close> on the code units a \<open>char\<close> can hold: tab, line feed, vertical tab, form feed,
  carriage return, space and the no-break space.
\<close>

definition is_space :: "char \<Rightarrow> bool" where
  "is_space c = (of_char c \<in> {9, 10, 11, 12, 13, 32, 160 :: nat})"

definition not_space_at :: "char \<Rightarrow> bool" where
  "not_space_at c = (\<not> is_space c \<and> c \<noteq> CHR ''@'')"

definition email_rx :: rx where
  "email_rx =
     Cat (Plus (Cls not_space_at))
       (Cat (Cls (\<lambda>c. c = CHR ''@''))
         (Cat (Plus (Cls not_space_at))
           (Cat (Cls (\<lambda>c. c = CHR ''.''))
             (Plus (Cls not_space_at)))))"

text \<open>
  \<open>RegExp.test\<close> converts its argument to a string first. The string forms of numbers
  and booleans contain no \<open>@\<close>, so only a string value can pass.
\<close>

fun email_test :: "json \<Rightarrow> bool" where
  "email_test (JStr s) = rx_test email_rx s"
| "email_test v = False"

section \<open>The store\<close>

datatype response_status = Pending | Attending | NotAttending | Maybe

datatype event_status = Created | Published | Archived | Cancelled

type_synonym timestamp = nat

text \<open>
  A row of \<open>events\<close>, as \<open>init_and_alter_db.ts\<close> creates the table. The columns declared
  without \<open>NOT NULL\<close> are optional values; the \<open>CHECK\<close> on \<open>status\<close> is the type
  \<open>event_status\<close>. \<open>created_at\<close> is the \<open>CURRENT_TIMESTAMP\<close> of the insert.
\<close>

record event =
  event_id :: int
  creatorEmail :: string
  eventName :: string
  description :: "string option"
  targetedAttendees :: int
  eventDate :: "string option"
  eventStartTime :: "string option"
  eventEndTime :: "string option"
  eventDuration :: "string option"
  status :: event_status
  created_at :: timestamp
  attendingCount :: "int option"
  notAttendingCount :: "int option"
  maybeCount :: "int option"
  pendingCount :: "int option"

text \<open>
  A row of \<open>eventAttendees\<close>. The \<open>CHECK\<close> on \<open>responseStatus\<close> is the type
  \<open>response_status\<close>; \<open>attendee_notes\<close> is the column \<open>notes\<close> and holds the value bound to it.
\<close>

record attendee =
  attendee_id :: int
  eventId :: int
  attendeeEmail :: string
  responseStatus :: response_status
  rsvpDate :: timestamp
  attendee_notes :: json
  attendee_created_at :: timestamp

text \<open>
  The database: both tables in row order, and for each the largest row id that
  \<open>AUTOINCREMENT\<close> has handed out (\<open>sqlite_sequence\<close>).
\<close>

record store =
  events :: "event list"
  eventAttendees :: "attendee list"
  events_seq :: int
  eventAttendees_seq :: int

text \<open>
  \<open>AUTOINCREMENT\<close>: the new row id is one above the largest id the table has ever
  held; once the largest 64-bit id has been used, the insert fails.
\<close>

definition max_rowid :: int where
  "max_rowid = 9223372036854775807"

definition next_rowid :: "int \<Rightarrow> int list \<Rightarrow> int option" where
  "next_rowid seq ids =
     (if fold max ids seq \<ge> max_rowid then None else Some (fold max ids seq + 1))"

section \<open>Responses\<close>

datatype body =
    InvalidEventId
  | EmailRequired
  | InvalidEmailFormat
  | InvalidResponseStatus
  | EventIdNotFound int
  | AlreadyResponded
  | TransactionFailed
  | ResponseUpdated
  | ResponseRecorded
  | MissingFields
  | InvalidStringTypes
  | TargetedAttendeesNotPositive
  | SaveFailed
  | EventCreated int nat
  | EventNotFound
  | EventPublished
  | EventCancelled
  | EventRow event
  | StatisticsFailed
  | CountRows "(string \<times> json) list list"

datatype response = Response nat body

fun code :: "response \<Rightarrow> nat" where
  "code (Response n b) = n"


section \<open>Attendee responses\<close>

definition allowedStatuses :: "string list" where
  "allowedStatuses = [''Pending'', ''Attending'', ''Not Attending'', ''Maybe'']"

text \<open>\<open>Array.prototype.includes\<close> on a list of strings compares by value and type.\<close>

fun array_includes :: "string list \<Rightarrow> json \<Rightarrow> bool" where
  "array_includes xs (JStr s) = (s \<in> set xs)"
| "array_includes xs v = False"

definition status_of_string :: "string \<Rightarrow> response_status option" where
  "status_of_string s =
     (if s = ''Pending'' then Some Pending
      else if s = ''Attending'' then Some Attending
      else if s = ''Not Attending'' then Some NotAttending
      else if s = ''Maybe'' then Some Maybe
      else None)"

text \<open>
  \<open>responseStatus || 'Pending'\<close>, read as a value of the column's type. \<open>None\<close> is a
  value the \<open>CHECK\<close> constraint of the table refuses.
\<close>

definition finalResponseStatus :: "json \<Rightarrow> response_status option" where
  "finalResponseStatus v =
     (if truthy v then (case v of JStr s \<Rightarrow> status_of_string s | _ \<Rightarrow> None)
      else Some Pending)"

record attendee_request =
  param_eventId :: "int option"
  body_attendeeEmail :: json
  body_responseStatus :: json
  body_notes :: json

datatype db_error =
  BindTypeError | UniqueConstraintFailed | ForeignKeyFailed | CheckFailed | DatabaseFull

definition sql_add :: "int option \<Rightarrow> int \<Rightarrow> int option" where
  "sql_add c d = map_option (\<lambda>n. n + d) c"

definition update_events :: "int \<Rightarrow> (event \<Rightarrow> event) \<Rightarrow> store \<Rightarrow> store" where
  "update_events eid f s =
     s\<lparr>events := map (\<lambda>e. if event_id e = eid then f e else e) (events s)\<rparr>"

text \<open>The two four-way chains of counter updates, in the order of the source.\<close>

definition decrement_counter :: "response_status \<Rightarrow> int \<Rightarrow> store \<Rightarrow> store" where
  "decrement_counter old eid s =
     (if old = Attending then
        update_events eid (\<lambda>e. e\<lparr>attendingCount := sql_add (attendingCount e) (- 1)\<rparr>) s
      else if old = NotAttending then
        update_events eid (\<lambda>e. e\<lparr>notAttendingCount := sql_add (notAttendingCount e) (- 1)\<rparr>) s
      else if old = Maybe then
        update_events eid (\<lambda>e. e\<lparr>maybeCount := sql_add (maybeCount e) (- 1)\<rparr>) s
      else if old = Pending then
        update_events eid (\<lambda>e. e\<lparr>pendingCount := sql_add (pendingCount e) (- 1)\<rparr>) s
      else s)"

definition increment_counter :: "response_status \<Rightarrow> int \<Rightarrow> store \<Rightarrow> store" where
  "increment_counter new eid s =
     (if new = Attending then
        update_events eid (\<lambda>e. e\<lparr>attendingCount := sql_add (attendingCount e) 1\<rparr>) s
      else if new = NotAttending then
        update_events eid (\<lambda>e. e\<lparr>notAttendingCount := sql_add (notAttendingCount e) 1\<rparr>) s
      else if new = Maybe then
        update_events eid (\<lambda>e. e\<lparr>maybeCount := sql_add (maybeCount e) 1\<rparr>) s
      else if new = Pending then
        update_events eid (\<lambda>e. e\<lparr>pendingCount := sql_add (pendingCount e) 1\<rparr>) s
      else s)"

definition same_pair :: "int \<Rightarrow> string \<Rightarrow> attendee \<Rightarrow> bool" where
  "same_pair eid email a = (eventId a = eid \<and> attendeeEmail a = email)"

text \<open>
  \<open>UPDATE eventAttendees SET responseStatus = ?, notes = ?, rsvpDate = CURRENT_TIMESTAMP
  WHERE eventId = ? AND attendeeEmail = ?\<close>
\<close>

definition update_attendee ::
  "timestamp \<Rightarrow> response_status \<Rightarrow> json \<Rightarrow> int \<Rightarrow> string \<Rightarrow> store \<Rightarrow> db_error + store" where
  "update_attendee now st n eid email s =
     (if \<not> bindable n then Inl BindTypeError
      else Inr (s\<lparr>eventAttendees :=
        map (\<lambda>a. if same_pair eid email a
                  then a\<lparr>responseStatus := st, attendee_notes := n, rsvpDate := now\<rparr> else a)
            (eventAttendees s)\<rparr>))"

text \<open>
  \<open>INSERT INTO eventAttendees (eventId, attendeeEmail, responseStatus, notes)\<close>, under
  the table's \<open>UNIQUE (eventId, attendeeEmail)\<close> and its foreign key to \<open>events\<close>.
\<close>

definition insert_attendee ::
  "timestamp \<Rightarrow> int \<Rightarrow> string \<Rightarrow> response_status \<Rightarrow> json \<Rightarrow> store \<Rightarrow> db_error + store" where
  "insert_attendee now eid email st n s =
     (if \<not> bindable n then Inl BindTypeError
      else if \<exists>a \<in> set (eventAttendees s). same_pair eid email a
        then Inl UniqueConstraintFailed
      else if \<not> (\<exists>e \<in> set (events s). event_id e = eid) then Inl ForeignKeyFailed
      else
        (case next_rowid (eventAttendees_seq s) (map attendee_id (eventAttendees s)) of
           None \<Rightarrow> Inl DatabaseFull
         | Some rid \<Rightarrow>
             Inr (s\<lparr>eventAttendees := eventAttendees s @
                     [\<lparr>attendee_id = rid, eventId = eid, attendeeEmail = email,
                       responseStatus = st, rsvpDate = now, attendee_notes = n,
                       attendee_created_at = now\<rparr>],
                   eventAttendees_seq := rid\<rparr>)))"

text \<open>
  The body of the \<open>try\<close> block, between \<open>BEGIN TRANSACTION\<close> and \<open>COMMIT\<close>. \<open>Inl\<close> is a
  thrown database error; the 404 exit rolls back itself and returns the store as it was
  at \<open>BEGIN\<close>.
\<close>

definition upsert_transaction ::
  "timestamp \<Rightarrow> int \<Rightarrow> string \<Rightarrow> response_status option \<Rightarrow> json \<Rightarrow> store
     \<Rightarrow> db_error + (response \<times> store)" where
  "upsert_transaction now eid email fin n s =
     (case find (same_pair eid email) (eventAttendees s) of
        Some existingAttendee \<Rightarrow>
          (let oldResponseStatus = responseStatus existingAttendee in
           case fin of
             None \<Rightarrow> Inl CheckFailed
           | Some st \<Rightarrow>
               (case update_attendee now st (if truthy n then n else JNull) eid email s of
                  Inl err \<Rightarrow> Inl err
                | Inr s1 \<Rightarrow>
                    Inr (Response 200 ResponseUpdated,
                         increment_counter st eid (decrement_counter oldResponseStatus eid s1))))
      | None \<Rightarrow>
          (case find (\<lambda>e. event_id e = eid) (events s) of
             None \<Rightarrow> Inr (Response 404 (EventIdNotFound eid), s)
           | Some eventExists \<Rightarrow>
               (case fin of
                  None \<Rightarrow> Inl CheckFailed
                | Some st \<Rightarrow>
                    (case insert_attendee now eid email st (if truthy n then n else JNull) s of
                       Inl err \<Rightarrow> Inl err
                     | Inr s1 \<Rightarrow>
                         Inr (Response 201 ResponseRecorded, increment_counter st eid s1)))))"

text \<open>
  \<open>POST /api/events/:eventId/attendees\<close>. \<open>param_eventId\<close> is the result of \<open>parseInt\<close> on
  the path parameter (\<open>None\<close> is \<open>NaN\<close>). The \<open>catch\<close> block rolls back to the store of
  \<open>BEGIN\<close> and answers 409 for the unique-constraint message, 500 otherwise.
\<close>

definition submitResponse :: "timestamp \<Rightarrow> store \<Rightarrow> attendee_request \<Rightarrow> response \<times> store" where
  "submitResponse now s req =
     (case param_eventId req of
        None \<Rightarrow> (Response 400 InvalidEventId, s)
      | Some eid \<Rightarrow>
          if eid \<le> 0 then (Response 400 InvalidEventId, s)
          else if \<not> truthy (body_attendeeEmail req) then (Response 400 EmailRequired, s)
          else if \<not> email_test (body_attendeeEmail req) then (Response 400 InvalidEmailFormat, s)
          else if truthy (body_responseStatus req)
                  \<and> \<not> array_includes allowedStatuses (body_responseStatus req)
            then (Response 400 InvalidResponseStatus, s)
          else
            (case body_attendeeEmail req of
               JStr email \<Rightarrow>
                 (case upsert_transaction now eid email
                         (finalResponseStatus (body_responseStatus req)) (body_notes req) s of
                    Inl err \<Rightarrow>
                      if err = UniqueConstraintFailed then (Response 409 AlreadyResponded, s)
                      else (Response 500 TransactionFailed, s)
                  | Inr (res, s') \<Rightarrow> (res, s'))
             | _ \<Rightarrow> (Response 400 InvalidEmailFormat, s)))"

section \<open>Events\<close>

record create_event_request =
  body_creatorEmail :: json
  body_eventName :: json
  body_description :: json
  body_targetedAttendees :: json
  body_eventDate :: json
  body_eventStartTime :: json
  body_eventEndTime :: json

text \<open>The string and the number a value holds, read only behind a \<open>typeof\<close> test.\<close>

fun str_of :: "json \<Rightarrow> string" where
  "str_of (JStr s) = s"
| "str_of v = []"

fun num_of :: "json \<Rightarrow> number" where
  "num_of (JNumber n) = n"
| "num_of v = Finite 0"

text \<open>The integer a number denotes, read only behind \<open>Number.isInteger\<close>.\<close>

fun integer_of :: "number \<Rightarrow> int" where
  "integer_of (Finite q) = \<lfloor>q\<rfloor>"
| "integer_of n = 0"

text \<open>
  \<open>INSERT INTO events (creatorEmail, eventName, description, targetedAttendees, eventDate,
  eventStartTime, eventEndTime)\<close>: the other columns take their defaults. The result is
  \<open>lastInsertRowid\<close> and the new store.
\<close>

definition insert_event ::
  "timestamp \<Rightarrow> string \<Rightarrow> string \<Rightarrow> string \<Rightarrow> int \<Rightarrow> string \<Rightarrow> string \<Rightarrow> string \<Rightarrow> store
     \<Rightarrow> db_error + (int \<times> store)" where
  "insert_event now ce en d ta ed es ee s =
     (case next_rowid (events_seq s) (map event_id (events s)) of
        None \<Rightarrow> Inl DatabaseFull
      | Some rid \<Rightarrow>
          Inr (rid,
            s\<lparr>events := events s @
                 [\<lparr>event_id = rid, creatorEmail = ce, eventName = en, description = Some d,
                   targetedAttendees = ta, eventDate = Some ed, eventStartTime = Some es,
                   eventEndTime = Some ee, eventDuration = None, status = Created,
                   created_at = now, attendingCount = Some 0, notAttendingCount = Some 0,
                   maybeCount = Some 0, pendingCount = Some 0\<rparr>],
               events_seq := rid\<rparr>))"

text \<open>\<open>POST /api/create-event\<close>\<close>

definition createEvent :: "timestamp \<Rightarrow> store \<Rightarrow> create_event_request \<Rightarrow> response \<times> store" where
  "createEvent now s req =
     (if \<not> truthy (body_creatorEmail req) \<or> \<not> truthy (body_eventName req)
         \<or> \<not> truthy (body_description req) \<or> body_targetedAttendees req = JUndefined
         \<or> \<not> truthy (body_eventDate req) \<or> \<not> truthy (body_eventStartTime req)
         \<or> \<not> truthy (body_eventEndTime req)
      then (Response 400 MissingFields, s)
      else if typeof (body_creatorEmail req) \<noteq> TString
         \<or> typeof (body_eventName req) \<noteq> TString
         \<or> typeof (body_description req) \<noteq> TString
         \<or> typeof (body_eventDate req) \<noteq> TString
         \<or> typeof (body_eventStartTime req) \<noteq> TString
         \<or> typeof (body_eventEndTime req) \<noteq> TString
      then (Response 400 InvalidStringTypes, s)
      else if typeof (body_targetedAttendees req) \<noteq> TNumber
         \<or> le_zero (num_of (body_targetedAttendees req))
         \<or> \<not> isInteger (num_of (body_targetedAttendees req))
      then (Response 400 TargetedAttendeesNotPositive, s)
      else
        (case insert_event now (str_of (body_creatorEmail req)) (str_of (body_eventName req))
                (str_of (body_description req)) (integer_of (num_of (body_targetedAttendees req)))
                (str_of (body_eventDate req)) (str_of (body_eventStartTime req))
                (str_of (body_eventEndTime req)) s of
           Inl err \<Rightarrow> (Response 500 SaveFailed, s)
         | Inr (rid, s') \<Rightarrow> (Response 201 (EventCreated rid 1), s')))"

text \<open>The body of \<open>POST /api/create-event\<close> as sent, its parse, and the request end to end.\<close>

record create_event_body =
  sent_creatorEmail :: body_value
  sent_eventName :: body_value
  sent_description :: body_value
  sent_targetedAttendees :: body_value
  sent_eventDate :: body_value
  sent_eventStartTime :: body_value
  sent_eventEndTime :: body_value

definition parse_create_event :: "create_event_body \<Rightarrow> create_event_request" where
  "parse_create_event b =
     \<lparr>body_creatorEmail = express_json (sent_creatorEmail b),
      body_eventName = express_json (sent_eventName b),
      body_description = express_json (sent_description b),
      body_targetedAttendees = express_json (sent_targetedAttendees b),
      body_eventDate = express_json (sent_eventDate b),
      body_eventStartTime = express_json (sent_eventStartTime b),
      body_eventEndTime = express_json (sent_eventEndTime b)\<rparr>"

definition post_create_event :: "timestamp \<Rightarrow> store \<Rightarrow> create_event_body \<Rightarrow> response \<times> store" where
  "post_create_event now s b = createEvent now s (parse_create_event b)"

text \<open>
  The handlers below pass the path parameter to SQLite as text. The column \<open>id\<close> has
  integer affinity, so the text is compared as the integer it spells; the parameter is
  modelled as that integer, \<open>None\<close> for a text that spells none and matches no row.
\<close>

definition id_matches :: "int option \<Rightarrow> event \<Rightarrow> bool" where
  "id_matches p e = (p = Some (event_id e))"

text \<open>\<open>UPDATE events SET status = ? WHERE id = ?\<close>, with the number of rows changed.\<close>

definition set_status :: "event_status \<Rightarrow> int option \<Rightarrow> store \<Rightarrow> nat \<times> store" where
  "set_status st p s =
     (length (filter (id_matches p) (events s)),
      s\<lparr>events := map (\<lambda>e. if id_matches p e then e\<lparr>status := st\<rparr> else e) (events s)\<rparr>)"

text \<open>\<open>PUT /api/events/:id/publish\<close>\<close>

definition publish :: "store \<Rightarrow> int option \<Rightarrow> response \<times> store" where
  "publish s p =
     (case set_status Published p s of
        (changes, s') \<Rightarrow>
          if changes = 0 then (Response 404 EventNotFound, s')
          else (Response 200 EventPublished, s'))"

text \<open>\<open>PUT /api/events/:id/cancel\<close>\<close>

definition cancel :: "store \<Rightarrow> int option \<Rightarrow> response \<times> store" where
  "cancel s p =
     (case set_status Cancelled p s of
        (changes, s') \<Rightarrow>
          if changes = 0 then (Response 404 EventNotFound, s')
          else (Response 200 EventCancelled, s'))"

text \<open>\<open>GET /api/events/:id\<close>\<close>

definition getEvent :: "store \<Rightarrow> int option \<Rightarrow> response" where
  "getEvent s p =
     (case find (id_matches p) (events s) of
        None \<Rightarrow> Response 404 EventNotFound
      | Some event \<Rightarrow> Response 200 (EventRow event))"

text \<open>The event a response carries.\<close>

fun event_of :: "response \<Rightarrow> event option" where
  "event_of (Response n (EventRow e)) = Some e"
| "event_of r = None"

section \<open>Events with their RSVP counts\<close>

fun text_or_null :: "string option \<Rightarrow> json" where
  "text_or_null None = JNull"
| "text_or_null (Some t) = JStr t"

fun int_or_null :: "int option \<Rightarrow> json" where
  "int_or_null None = JNull"
| "int_or_null (Some n) = JNum (of_int n)"

fun status_text :: "event_status \<Rightarrow> string" where
  "status_text Created = ''Created''"
| "status_text Published = ''Published''"
| "status_text Archived = ''Archived''"
| "status_text Cancelled = ''Cancelled''"

text \<open>
  The columns of \<open>events\<close>, in the order of the \<open>CREATE TABLE\<close> statement, each with the
  reading of its value from a row.
\<close>

definition events_columns :: "(string \<times> (event \<Rightarrow> json)) list" where
  "events_columns =
     [(''id'', \<lambda>e. JNum (of_int (event_id e))),
      (''creatorEmail'', \<lambda>e. JStr (creatorEmail e)),
      (''eventName'', \<lambda>e. JStr (eventName e)),
      (''description'', \<lambda>e. text_or_null (description e)),
      (''targetedAttendees'', \<lambda>e. JNum (of_int (targetedAttendees e))),
      (''eventDate'', \<lambda>e. text_or_null (eventDate e)),
      (''eventStartTime'', \<lambda>e. text_or_null (eventStartTime e)),
      (''eventEndTime'', \<lambda>e. text_or_null (eventEndTime e)),
      (''eventDuration'', \<lambda>e. text_or_null (eventDuration e)),
      (''status'', \<lambda>e. JStr (status_text (status e))),
      (''created_at'', \<lambda>e. JNum (of_nat (created_at e))),
      (''attendingCount'', \<lambda>e. int_or_null (attendingCount e)),
      (''notAttendingCount'', \<lambda>e. int_or_null (notAttendingCount e)),
      (''maybeCount'', \<lambda>e. int_or_null (maybeCount e)),
      (''pendingCount'', \<lambda>e. int_or_null (pendingCount e))]"

text \<open>
  Preparing a \<open>SELECT\<close> resolves every column name against the table; a name the table
  does not have makes \<open>prepare\<close> throw (\<open>None\<close>).
\<close>

fun resolve_columns :: "string list \<Rightarrow> (string \<times> (event \<Rightarrow> json)) list option" where
  "resolve_columns [] = Some []"
| "resolve_columns (c # cs) =
     (case map_of events_columns c of
        None \<Rightarrow> None
      | Some f \<Rightarrow> map_option ((#) (c, f)) (resolve_columns cs))"

text \<open>SQL addition: \<open>NULL\<close> if either operand is.\<close>

definition sql_plus :: "int option \<Rightarrow> int option \<Rightarrow> int option" where
  "sql_plus a b = (case (a, b) of (Some x, Some y) \<Rightarrow> Some (x + y) | _ \<Rightarrow> None)"

text \<open>\<open>(attendingCount + notAttendingCount + maybeCount + pendingCount) AS totalRsvps\<close>\<close>

definition totalRsvps :: "event \<Rightarrow> int option" where
  "totalRsvps e =
     sql_plus (sql_plus (sql_plus (attendingCount e) (notAttendingCount e)) (maybeCount e))
       (pendingCount e)"

definition counts_select_list :: "string list" where
  "counts_select_list =
     [''id'', ''creatorEmail'', ''eventName'', ''description'', ''targetedAttendees'',
      ''eventDate'', ''eventTime'', ''created_at'', ''attendingCount'', ''notAttendingCount'',
      ''maybeCount'', ''pendingCount'']"

text \<open>
  \<open>GET /api/events-with-rsvp-counts\<close>. \<open>ORDER BY created_at DESC\<close> is a stable sort read
  backwards; SQLite leaves the order of rows with equal \<open>created_at\<close> open.
\<close>

definition listEventsWithCounts :: "store \<Rightarrow> response" where
  "listEventsWithCounts s =
     (case resolve_columns counts_select_list of
        None \<Rightarrow> Response 500 StatisticsFailed
      | Some cols \<Rightarrow>
          Response 200 (CountRows
            (map (\<lambda>e. map (\<lambda>(c, f). (c, f e)) cols @ [(''totalRsvps'', int_or_null (totalRsvps e))])
                 (rev (sort_key created_at (events s))))))"

section \<open>Properties of the store\<close>

text \<open>The number of RSVP rows of an event.\<close>

definition rsvp_rows :: "store \<Rightarrow> int \<Rightarrow> nat" where
  "rsvp_rows s eid = length (filter (\<lambda>a. eventId a = eid) (eventAttendees s))"

text \<open>Count consistency: on every event row the four counters sum to its number of RSVP rows.\<close>

definition count_consistent :: "store \<Rightarrow> bool" where
  "count_consistent s =
     (\<forall>e \<in> set (events s). totalRsvps e = Some (int (rsvp_rows s (event_id e))))"

text \<open>Uniqueness: no two RSVP rows share \<open>(eventId, attendeeEmail)\<close>.\<close>

definition unique_pairs :: "store \<Rightarrow> bool" where
  "unique_pairs s = distinct (map (\<lambda>a. (eventId a, attendeeEmail a)) (eventAttendees s))"

text \<open>An RSVP row exists for the pair; an event row exists for the id.\<close>

definition has_rsvp :: "store \<Rightarrow> int \<Rightarrow> string \<Rightarrow> bool" where
  "has_rsvp s eid email = (\<exists>a \<in> set (eventAttendees s). same_pair eid email a)"

definition has_event :: "store \<Rightarrow> int \<Rightarrow> bool" where
  "has_event s eid = (\<exists>e \<in> set (events s). event_id e = eid)"


text \<open>A sequence of submissions, each at its own time, run one after the other.\<close>

fun run_upserts :: "store \<Rightarrow> (timestamp \<times> attendee_request) list \<Rightarrow> store" where
  "run_upserts s [] = s"
| "run_upserts s ((now, req) # rest) = run_upserts (snd (submitResponse now s req)) rest"

text \<open>The counter of an event that belongs to a response status.\<close>

fun counter :: "response_status \<Rightarrow> event \<Rightarrow> int option" where
  "counter Attending e = attendingCount e"
| "counter NotAttending e = notAttendingCount e"
| "counter Maybe e = maybeCount e"
| "counter Pending e = pendingCount e"

text \<open>A request passes the validation of \<open>submitResponse\<close>.\<close>

definition valid_request :: "attendee_request \<Rightarrow> bool" where
  "valid_request req =
     ((case param_eventId req of None \<Rightarrow> False | Some eid \<Rightarrow> 0 < eid)
      \<and> email_test (body_attendeeEmail req)
      \<and> (truthy (body_responseStatus req)
           \<longrightarrow> array_includes allowedStatuses (body_responseStatus req)))"



text \<open>Some event row has the id the path parameter spells.\<close>

definition row_matched :: "store \<Rightarrow> int option \<Rightarrow> bool" where
  "row_matched s p = (\<exists>e \<in> set (events s). id_matches p e)"

section \<open>Example data\<close>

text \<open>
  An event that one attendee attends and two have left pending, and a request against it.
\<close>

definition demo_event :: event where
  "demo_event =
     \<lparr>event_id = 1, creatorEmail = ''org@x.com'', eventName = ''Meetup'',
      description = Some ''Talks'', targetedAttendees = 5, eventDate = Some ''2025-08-15'',
      eventStartTime = Some ''18:00'', eventEndTime = Some ''20:00'', eventDuration = None,
      status = Created, created_at = 100, attendingCount = Some 1,
      notAttendingCount = Some 0, maybeCount = Some 0, pendingCount = Some 2\<rparr>"

definition demo_row :: "int \<Rightarrow> string \<Rightarrow> response_status \<Rightarrow> attendee" where
  "demo_row i email st =
     \<lparr>attendee_id = i, eventId = 1, attendeeEmail = email, responseStatus = st,
      rsvpDate = 100, attendee_notes = JNull, attendee_created_at = 100\<rparr>"

definition demo_store :: store where
  "demo_store =
     \<lparr>events = [demo_event],
      eventAttendees = [demo_row 1 ''a@x.com'' Pending, demo_row 2 ''b@x.com'' Pending,
                        demo_row 3 ''c@x.com'' Attending],
      events_seq = 1, eventAttendees_seq = 3\<rparr>"

definition demo_request :: "int \<Rightarrow> string \<Rightarrow> json \<Rightarrow> attendee_request" where
  "demo_request eid email st =
     \<lparr>param_eventId = Some eid, body_attendeeEmail = JStr email, body_responseStatus = st,
      body_notes = JUndefined\<rparr>"

text \<open>A \<open>createEvent\<close> body with the attendee target and the date left open.\<close>

definition demo_create :: "json \<Rightarrow> json \<Rightarrow> create_event_request" where
  "demo_create ta ed =
     \<lparr>body_creatorEmail = JStr ''org@x.com'', body_eventName = JStr ''Launch'',
      body_description = JStr ''Release party'', body_targetedAttendees = ta,
      body_eventDate = ed, body_eventStartTime = JStr ''18:00'',
      body_eventEndTime = JStr ''20:00''\<rparr>"

text \<open>The same body as the client sends it, with the attendee target left open.\<close>

definition demo_body :: "rat \<Rightarrow> create_event_body" where
  "demo_body ta =
     \<lparr>sent_creatorEmail = BString ''org@x.com'', sent_eventName = BString ''Launch'',
      sent_description = BString ''Release party'', sent_targetedAttendees = BNumber ta,
      sent_eventDate = BString ''2025-09-01'', sent_eventStartTime = BString ''18:00'',
      sent_eventEndTime = BString ''20:00''\<rparr>"

section \<open>Count consistency\<close>

lemma increment_counter_attendees [simp]:
  "eventAttendees (increment_counter st eid s) = eventAttendees s"
  by (simp add: increment_counter_def update_events_def)

lemma decrement_counter_attendees [simp]:
  "eventAttendees (decrement_counter st eid s) = eventAttendees s"
  by (simp add: decrement_counter_def update_events_def)

lemma increment_counter_events:
  "events (increment_counter st eid s) =
     map (\<lambda>e. if event_id e = eid then
            (case st of Attending \<Rightarrow> e\<lparr>attendingCount := sql_add (attendingCount e) 1\<rparr>
             | NotAttending \<Rightarrow> e\<lparr>notAttendingCount := sql_add (notAttendingCount e) 1\<rparr>
             | Maybe \<Rightarrow> e\<lparr>maybeCount := sql_add (maybeCount e) 1\<rparr>
             | Pending \<Rightarrow> e\<lparr>pendingCount := sql_add (pendingCount e) 1\<rparr>) else e) (events s)"
  by (cases st) (simp_all add: increment_counter_def update_events_def)

lemma decrement_counter_events:
  "events (decrement_counter st eid s) =
     map (\<lambda>e. if event_id e = eid then
            (case st of Attending \<Rightarrow> e\<lparr>attendingCount := sql_add (attendingCount e) (- 1)\<rparr>
             | NotAttending \<Rightarrow> e\<lparr>notAttendingCount := sql_add (notAttendingCount e) (- 1)\<rparr>
             | Maybe \<Rightarrow> e\<lparr>maybeCount := sql_add (maybeCount e) (- 1)\<rparr>
             | Pending \<Rightarrow> e\<lparr>pendingCount := sql_add (pendingCount e) (- 1)\<rparr>) else e) (events s)"
  by (cases st) (simp_all add: decrement_counter_def update_events_def)

lemma increment_counter_total:
  assumes "e' \<in> set (events (increment_counter st eid s))"
  shows "\<exists>e \<in> set (events s). event_id e' = event_id e \<and>
           totalRsvps e' = (if event_id e = eid then sql_add (totalRsvps e) 1 else totalRsvps e)"
proof -
  from assms obtain e where e: "e \<in> set (events s)"
    and e': "e' = (if event_id e = eid then
            (case st of Attending \<Rightarrow> e\<lparr>attendingCount := sql_add (attendingCount e) 1\<rparr>
             | NotAttending \<Rightarrow> e\<lparr>notAttendingCount := sql_add (notAttendingCount e) 1\<rparr>
             | Maybe \<Rightarrow> e\<lparr>maybeCount := sql_add (maybeCount e) 1\<rparr>
             | Pending \<Rightarrow> e\<lparr>pendingCount := sql_add (pendingCount e) 1\<rparr>) else e)"
    unfolding increment_counter_events by auto
  have "event_id e' = event_id e \<and>
           totalRsvps e' = (if event_id e = eid then sql_add (totalRsvps e) 1 else totalRsvps e)"
    unfolding e'
    by (cases "attendingCount e"; cases "notAttendingCount e"; cases "maybeCount e";
        cases "pendingCount e"; cases st)
       (simp_all add: totalRsvps_def sql_plus_def sql_add_def)
  with e show ?thesis by blast
qed

lemma decrement_counter_total:
  assumes "e' \<in> set (events (decrement_counter st eid s))"
  shows "\<exists>e \<in> set (events s). event_id e' = event_id e \<and>
           totalRsvps e' = (if event_id e = eid then sql_add (totalRsvps e) (- 1) else totalRsvps e)"
proof -
  from assms obtain e where e: "e \<in> set (events s)"
    and e': "e' = (if event_id e = eid then
            (case st of Attending \<Rightarrow> e\<lparr>attendingCount := sql_add (attendingCount e) (- 1)\<rparr>
             | NotAttending \<Rightarrow> e\<lparr>notAttendingCount := sql_add (notAttendingCount e) (- 1)\<rparr>
             | Maybe \<Rightarrow> e\<lparr>maybeCount := sql_add (maybeCount e) (- 1)\<rparr>
             | Pending \<Rightarrow> e\<lparr>pendingCount := sql_add (pendingCount e) (- 1)\<rparr>) else e)"
    unfolding decrement_counter_events by auto
  have "event_id e' = event_id e \<and>
           totalRsvps e' = (if event_id e = eid then sql_add (totalRsvps e) (- 1) else totalRsvps e)"
    unfolding e'
    by (cases "attendingCount e"; cases "notAttendingCount e"; cases "maybeCount e";
        cases "pendingCount e"; cases st)
       (simp_all add: totalRsvps_def sql_plus_def sql_add_def)
  with e show ?thesis by blast
qed

lemma update_attendee_rows:
  "update_attendee now st n eid email s = Inr s1 \<Longrightarrow>
     events s1 = events s \<and> rsvp_rows s1 x = rsvp_rows s x"
proof -
  assume a: "update_attendee now st n eid email s = Inr s1"
  have "filter (\<lambda>a. eventId a = x) (map (\<lambda>a. if same_pair eid email a
                  then a\<lparr>responseStatus := st, attendee_notes := n, rsvpDate := now\<rparr> else a) xs)
        = map (\<lambda>a. if same_pair eid email a
                  then a\<lparr>responseStatus := st, attendee_notes := n, rsvpDate := now\<rparr> else a)
              (filter (\<lambda>a. eventId a = x) xs)" for xs
    by (induction xs) (auto simp: same_pair_def)
  with a show ?thesis
    by (auto simp: update_attendee_def rsvp_rows_def split: if_splits)
qed

lemma insert_attendee_rows:
  "insert_attendee now eid email st n s = Inr s1 \<Longrightarrow>
     events s1 = events s \<and> rsvp_rows s1 x = rsvp_rows s x + (if x = eid then 1 else 0)"
  by (auto simp: insert_attendee_def rsvp_rows_def split: if_splits option.splits)

lemma upsert_transaction_consistent:
  assumes "count_consistent s" and "upsert_transaction now eid email fin n s = Inr (res, s')"
  shows "count_consistent s'"
proof (cases "find (same_pair eid email) (eventAttendees s)")
  case None
  show ?thesis
  proof (cases "find (\<lambda>e. event_id e = eid) (events s)")
    case N2: None
    with None assms show ?thesis by (simp add: upsert_transaction_def)
  next
    case (Some ev)
    with None assms(2) obtain st s1 where fin: "fin = Some st"
      and ins: "insert_attendee now eid email st (if truthy n then n else JNull) s = Inr s1"
      and s': "s' = increment_counter st eid s1"
      by (auto simp: upsert_transaction_def split: option.splits sum.splits)
    note r = insert_attendee_rows[OF ins]
    show ?thesis unfolding count_consistent_def
    proof
      fix e' assume "e' \<in> set (events s')"
      then obtain e where e: "e \<in> set (events s1)" "event_id e' = event_id e"
        "totalRsvps e' = (if event_id e = eid then sql_add (totalRsvps e) 1 else totalRsvps e)"
        unfolding s' using increment_counter_total by blast
      from e(1) r have "e \<in> set (events s)" by simp
      with assms(1) have t: "totalRsvps e = Some (int (rsvp_rows s (event_id e)))"
        by (simp add: count_consistent_def)
      have "rsvp_rows s' (event_id e') = rsvp_rows s1 (event_id e)"
        by (simp add: s' rsvp_rows_def e(2))
      with r[of "event_id e"] e t show "totalRsvps e' = Some (int (rsvp_rows s' (event_id e')))"
        by (auto simp: sql_add_def)
    qed
  qed
next
  case (Some ex)
  with assms(2) obtain st s1 where fin: "fin = Some st"
      and upd: "update_attendee now st (if truthy n then n else JNull) eid email s = Inr s1"
      and s': "s' = increment_counter st eid (decrement_counter (responseStatus ex) eid s1)"
    by (auto simp: upsert_transaction_def Let_def split: option.splits sum.splits)
  note r = update_attendee_rows[OF upd]
  show ?thesis unfolding count_consistent_def
  proof
    fix e' assume "e' \<in> set (events s')"
    then obtain e2 where e2: "e2 \<in> set (events (decrement_counter (responseStatus ex) eid s1))"
        "event_id e' = event_id e2"
        "totalRsvps e' = (if event_id e2 = eid then sql_add (totalRsvps e2) 1 else totalRsvps e2)"
      unfolding s' using increment_counter_total by blast
    from e2(1) obtain e where e: "e \<in> set (events s1)" "event_id e2 = event_id e"
        "totalRsvps e2 = (if event_id e = eid then sql_add (totalRsvps e) (- 1) else totalRsvps e)"
      using decrement_counter_total by blast
    from e(1) r have "e \<in> set (events s)" by simp
    with assms(1) have t: "totalRsvps e = Some (int (rsvp_rows s (event_id e)))"
      by (simp add: count_consistent_def)
    have "rsvp_rows s' (event_id e') = rsvp_rows s1 (event_id e)"
      by (simp add: s' rsvp_rows_def e2(2) e(2))
    with r[of "event_id e"] e e2 t show "totalRsvps e' = Some (int (rsvp_rows s' (event_id e')))"
      by (auto simp: sql_add_def)
  qed
qed

lemma submitResponse_consistent:
  assumes "count_consistent s"
  shows "count_consistent (snd (submitResponse now s req))"
proof (cases "submitResponse now s req")
  case (Pair res s')
  show ?thesis
  proof (cases "s' = s")
    case True
    with Pair assms show ?thesis by simp
  next
    case False
    with Pair obtain eid email where
      "upsert_transaction now eid email (finalResponseStatus (body_responseStatus req))
         (body_notes req) s = Inr (res, s')"
      by (auto simp: submitResponse_def split: option.splits if_splits json.splits sum.splits)
    with assms Pair show ?thesis by (simp add: upsert_transaction_consistent)
  qed
qed

text \<open>
  Claim C1 (count consistency). If on every event row the four counters sum to the number of
  RSVP rows of that event, the same holds after any sequence of \<open>submitResponse\<close> calls,
  whatever each call answers; in particular after every single successful call.
\<close>

theorem count_consistency:
  "count_consistent s \<Longrightarrow> count_consistent (run_upserts s calls)"
proof (induction calls arbitrary: s)
  case Nil
  then show ?case by simp
next
  case (Cons c calls)
  obtain now req where c: "c = (now, req)" by (cases c)
  from Cons show ?case unfolding c by (simp add: submitResponse_consistent)
qed

theorem count_consistency_witness:
  "count_consistent demo_store
   \<and> count_consistent (run_upserts demo_store
        [(200, demo_request 1 ''a@x.com'' (JStr ''Attending'')),
         (201, demo_request 1 ''d@x.com'' JUndefined)])"
proof -
  have h: "count_consistent demo_store" by code_simp
  show ?thesis
    using h count_consistency [OF h,
      of "[(200, demo_request 1 ''a@x.com'' (JStr ''Attending'')),
           (201, demo_request 1 ''d@x.com'' JUndefined)]"]
    by blast
qed

section \<open>Idempotence\<close>

lemma sql_add_back: "sql_add (sql_add c (- 1)) 1 = c"
  by (cases c) (simp_all add: sql_add_def)

lemma counter_round_trip:
  "events (increment_counter st eid (decrement_counter st eid s)) = events s"
proof -
  have "map ((\<lambda>e. if event_id e = eid then
            (case st of Attending \<Rightarrow> e\<lparr>attendingCount := sql_add (attendingCount e) 1\<rparr>
             | NotAttending \<Rightarrow> e\<lparr>notAttendingCount := sql_add (notAttendingCount e) 1\<rparr>
             | Maybe \<Rightarrow> e\<lparr>maybeCount := sql_add (maybeCount e) 1\<rparr>
             | Pending \<Rightarrow> e\<lparr>pendingCount := sql_add (pendingCount e) 1\<rparr>) else e) \<circ>
        (\<lambda>e. if event_id e = eid then
            (case st of Attending \<Rightarrow> e\<lparr>attendingCount := sql_add (attendingCount e) (- 1)\<rparr>
             | NotAttending \<Rightarrow> e\<lparr>notAttendingCount := sql_add (notAttendingCount e) (- 1)\<rparr>
             | Maybe \<Rightarrow> e\<lparr>maybeCount := sql_add (maybeCount e) (- 1)\<rparr>
             | Pending \<Rightarrow> e\<lparr>pendingCount := sql_add (pendingCount e) (- 1)\<rparr>) else e)) xs = xs" for xs
    by (induction xs) (cases st; simp add: sql_add_back)+
  then show ?thesis
    by (simp add: increment_counter_events decrement_counter_events)
qed

lemma find_map_keep:
  assumes "\<And>x. P (f x) = P x"
  shows "find P (map f xs) = map_option f (find P xs)"
  by (induction xs) (simp_all add: assms)

lemma find_append_new:
  "find P xs = None \<Longrightarrow> find P (xs @ ys) = find P ys"
  by (induction xs) (simp_all split: if_splits)

lemma find_None_iff_set: "find P xs = None \<longleftrightarrow> (\<forall>x \<in> set xs. \<not> P x)"
  by (induction xs) simp_all

text \<open>What a transaction that answers 200 or 201 has done.\<close>

lemma upsert_transaction_cases:
  assumes "upsert_transaction now eid email fin n s = Inr (res, s')"
  shows "(res = Response 404 (EventIdNotFound eid) \<and> s' = s
            \<and> find (same_pair eid email) (eventAttendees s) = None
            \<and> find (\<lambda>e. event_id e = eid) (events s) = None)
       \<or> (\<exists>ex st s1. res = Response 200 ResponseUpdated \<and> fin = Some st
            \<and> find (same_pair eid email) (eventAttendees s) = Some ex
            \<and> update_attendee now st (if truthy n then n else JNull) eid email s = Inr s1
            \<and> s' = increment_counter st eid (decrement_counter (responseStatus ex) eid s1))
       \<or> (\<exists>ev st s1. res = Response 201 ResponseRecorded \<and> fin = Some st
            \<and> find (same_pair eid email) (eventAttendees s) = None
            \<and> find (\<lambda>e. event_id e = eid) (events s) = Some ev
            \<and> insert_attendee now eid email st (if truthy n then n else JNull) s = Inr s1
            \<and> s' = increment_counter st eid s1)"
  using assms
  by (auto simp: upsert_transaction_def Let_def split: option.splits sum.splits)

lemma update_attendee_find:
  assumes "update_attendee now st n eid email s = Inr s1"
    and "find (same_pair eid email) (eventAttendees s) = Some ex"
  shows "\<exists>a. find (same_pair eid email) (eventAttendees s1) = Some a \<and> responseStatus a = st"
proof -
  have "find (same_pair eid email) (map (\<lambda>a. if same_pair eid email a
                  then a\<lparr>responseStatus := st, attendee_notes := n, rsvpDate := now\<rparr> else a)
            (eventAttendees s))
     = map_option (\<lambda>a. if same_pair eid email a
                  then a\<lparr>responseStatus := st, attendee_notes := n, rsvpDate := now\<rparr> else a)
         (find (same_pair eid email) (eventAttendees s))"
    by (rule find_map_keep) (simp add: same_pair_def)
  moreover have "same_pair eid email ex"
    using assms(2) by (auto simp: find_Some_iff)
  ultimately show ?thesis
    using assms by (auto simp: update_attendee_def split: if_splits)
qed

lemma insert_attendee_find:
  assumes "insert_attendee now eid email st n s = Inr s1"
    and "find (same_pair eid email) (eventAttendees s) = None"
  shows "\<exists>a. find (same_pair eid email) (eventAttendees s1) = Some a \<and> responseStatus a = st"
  using assms
  by (auto simp: insert_attendee_def find_append_new same_pair_def
           split: if_splits option.splits)

lemma upsert_transaction_find:
  assumes "upsert_transaction now eid email fin n s = Inr (res, s')"
    and "code res \<noteq> 404"
  shows "\<exists>a st. fin = Some st \<and> find (same_pair eid email) (eventAttendees s') = Some a
            \<and> responseStatus a = st"
  using upsert_transaction_cases[OF assms(1)] assms(2)
  by (auto dest: update_attendee_find insert_attendee_find)

text \<open>The shape of every answer of \<open>submitResponse\<close>.\<close>

lemma submitResponse_cases:
  "(snd (submitResponse now s req) = s \<and> code (fst (submitResponse now s req)) \<in> {400, 404, 409, 500})
   \<or> (\<exists>eid email. param_eventId req = Some eid \<and> 0 < eid \<and> body_attendeeEmail req = JStr email
        \<and> valid_request req
        \<and> code (fst (submitResponse now s req)) \<in> {200, 201}
        \<and> upsert_transaction now eid email (finalResponseStatus (body_responseStatus req))
             (body_notes req) s = Inr (submitResponse now s req))"
proof (cases "valid_request req")
  case False
  then show ?thesis
    by (auto simp: submitResponse_def valid_request_def split: option.splits json.splits)
next
  case True
  then obtain eid email where v: "param_eventId req = Some eid" "0 < eid"
     "body_attendeeEmail req = JStr email" "email_test (JStr email)"
     "truthy (body_responseStatus req) \<longrightarrow> array_includes allowedStatuses (body_responseStatus req)"
    by (cases "body_attendeeEmail req") (auto simp: valid_request_def split: option.splits)
  from v(4) have ne: "email \<noteq> []" by (auto simp: email_rx_def Plus_def)
  show ?thesis
  proof (cases "upsert_transaction now eid email (finalResponseStatus (body_responseStatus req))
             (body_notes req) s")
    case (Inl err)
    with v ne show ?thesis by (auto simp: submitResponse_def)
  next
    case (Inr p)
    obtain res s' where p: "p = (res, s')" by (cases p)
    from Inr p v ne have sr: "submitResponse now s req = (res, s')"
      by (auto simp: submitResponse_def)
    from upsert_transaction_cases[OF Inr[unfolded p]] sr v True Inr p show ?thesis
      by auto
  qed
qed

lemma has_rsvp_find: "has_rsvp s eid email \<longleftrightarrow> find (same_pair eid email) (eventAttendees s) \<noteq> None"
  by (auto simp: has_rsvp_def find_None_iff_set)

lemma has_event_find: "has_event s eid \<longleftrightarrow> find (\<lambda>e. event_id e = eid) (events s) \<noteq> None"
  by (auto simp: has_event_def find_None_iff_set)

lemma valid_request_final:
  assumes "valid_request req"
  shows "\<exists>st. finalResponseStatus (body_responseStatus req) = Some st"
proof (cases "truthy (body_responseStatus req)")
  case False
  then show ?thesis by (simp add: finalResponseStatus_def)
next
  case True
  with assms have "array_includes allowedStatuses (body_responseStatus req)"
    by (simp add: valid_request_def)
  then show ?thesis
    by (cases "body_responseStatus req")
       (auto simp: finalResponseStatus_def allowedStatuses_def status_of_string_def)
qed

lemma submitResponse_valid:
  assumes "valid_request req" "param_eventId req = Some eid" "body_attendeeEmail req = JStr email"
  shows "submitResponse now s req =
     (case upsert_transaction now eid email (finalResponseStatus (body_responseStatus req))
             (body_notes req) s of
        Inl err \<Rightarrow> if err = UniqueConstraintFailed then (Response 409 AlreadyResponded, s)
                   else (Response 500 TransactionFailed, s)
      | Inr (res, s') \<Rightarrow> (res, s'))"
proof -
  from assms have "email_test (JStr email)" by (simp add: valid_request_def)
  then have "email \<noteq> []" by (auto simp: email_rx_def Plus_def)
  with assms show ?thesis
    by (auto simp: submitResponse_def valid_request_def)
qed

lemma idempotence_after_success:
  assumes "param_eventId r2 = param_eventId r1"
    and "body_attendeeEmail r2 = body_attendeeEmail r1"
    and "body_responseStatus r2 = body_responseStatus r1"
    and "code (fst (submitResponse t1 s r1)) \<in> {200, 201}"
  shows "events (snd (submitResponse t2 (snd (submitResponse t1 s r1)) r2))
           = events (snd (submitResponse t1 s r1))"
proof -
  from submitResponse_cases[of t1 s r1] assms(4)
  obtain eid email where r1: "param_eventId r1 = Some eid" "body_attendeeEmail r1 = JStr email"
    and tx1: "upsert_transaction t1 eid email (finalResponseStatus (body_responseStatus r1))
             (body_notes r1) s = Inr (submitResponse t1 s r1)"
    by auto
  obtain res1 s1 where sr1: "submitResponse t1 s r1 = (res1, s1)" by (cases "submitResponse t1 s r1")
  from assms(4) sr1 have "code res1 \<noteq> 404" by auto
  from upsert_transaction_find[OF tx1[unfolded sr1] this]
  obtain a st where fin: "finalResponseStatus (body_responseStatus r1) = Some st"
    and fa: "find (same_pair eid email) (eventAttendees s1) = Some a" "responseStatus a = st"
    by blast
  from submitResponse_cases[of t2 s1 r2]
  show ?thesis
  proof
    assume "snd (submitResponse t2 s1 r2) = s1 \<and> code (fst (submitResponse t2 s1 r2)) \<in> {400, 404, 409, 500}"
    then show ?thesis by (simp add: sr1)
  next
    assume "\<exists>eid email. param_eventId r2 = Some eid \<and> 0 < eid \<and> body_attendeeEmail r2 = JStr email
        \<and> valid_request r2
        \<and> code (fst (submitResponse t2 s1 r2)) \<in> {200, 201}
        \<and> upsert_transaction t2 eid email (finalResponseStatus (body_responseStatus r2))
             (body_notes r2) s1 = Inr (submitResponse t2 s1 r2)"
    with assms(1-3) r1 fin have c2: "code (fst (submitResponse t2 s1 r2)) \<in> {200, 201}"
      and tx2: "upsert_transaction t2 eid email (Some st) (body_notes r2) s1
                  = Inr (submitResponse t2 s1 r2)"
      by auto
    obtain res2 s2 where sr2: "submitResponse t2 s1 r2 = (res2, s2)"
      by (cases "submitResponse t2 s1 r2")
    from upsert_transaction_cases[OF tx2[unfolded sr2]] fa c2 sr2
    obtain s1' where
      upd: "update_attendee t2 st (if truthy (body_notes r2) then body_notes r2 else JNull)
              eid email s1 = Inr s1'"
      and s2: "s2 = increment_counter st eid (decrement_counter st eid s1')"
      by auto
    from update_attendee_rows[OF upd] have "events s1' = events s1" by simp
    with s2 show ?thesis by (simp add: sr1 sr2 counter_round_trip)
  qed
qed


lemma upsert_transaction_time:
  assumes "upsert_transaction t2 eid email fin n s = Inr (res, s2)"
  shows "\<exists>s1. upsert_transaction t1 eid email fin n s = Inr (res, s1)"
  using assms
  by (auto simp: upsert_transaction_def update_attendee_def insert_attendee_def Let_def
           split: option.splits sum.splits if_splits)

lemma submitResponse_failure_time:
  assumes "code (fst (submitResponse t1 s req)) \<notin> {200, 201}"
  shows "snd (submitResponse t2 s req) = s"
proof -
  from submitResponse_cases[of t2 s req] show ?thesis
  proof
    assume "snd (submitResponse t2 s req) = s \<and> code (fst (submitResponse t2 s req)) \<in> {400, 404, 409, 500}"
    then show ?thesis by simp
  next
    assume "\<exists>eid email. param_eventId req = Some eid \<and> 0 < eid \<and> body_attendeeEmail req = JStr email
        \<and> valid_request req
        \<and> code (fst (submitResponse t2 s req)) \<in> {200, 201}
        \<and> upsert_transaction t2 eid email (finalResponseStatus (body_responseStatus req))
             (body_notes req) s = Inr (submitResponse t2 s req)"
    then obtain eid email where v: "param_eventId req = Some eid" "body_attendeeEmail req = JStr email"
        "valid_request req" and c: "code (fst (submitResponse t2 s req)) \<in> {200, 201}"
      and tx: "upsert_transaction t2 eid email (finalResponseStatus (body_responseStatus req))
             (body_notes req) s = Inr (submitResponse t2 s req)"
      by blast
    obtain res s2 where sr: "submitResponse t2 s req = (res, s2)" by (cases "submitResponse t2 s req")
    from upsert_transaction_time[OF tx[unfolded sr], of t1] obtain s1 where
      "upsert_transaction t1 eid email (finalResponseStatus (body_responseStatus req))
             (body_notes req) s = Inr (res, s1)" by blast
    then have "submitResponse t1 s req = (res, s1)"
      by (simp add: submitResponse_valid[OF v(3) v(1) v(2)])
    with c sr assms show ?thesis by simp
  qed
qed

text \<open>
  Claim C2 (idempotence). When a submission for an event and an e-mail address is followed
  by a second one with the same \<open>responseStatus\<close> field, every event row, and so each of
  its four counters, is after the second call what it was after the first. The first call
  has been answered 200 or 201, or the second repeats it with the same notes as well.
\<close>

theorem idempotence:
  assumes "param_eventId r2 = param_eventId r1"
    and "body_attendeeEmail r2 = body_attendeeEmail r1"
    and "body_responseStatus r2 = body_responseStatus r1"
    and "code (fst (submitResponse t1 s r1)) \<in> {200, 201} \<or> body_notes r2 = body_notes r1"
  shows "events (snd (submitResponse t2 (snd (submitResponse t1 s r1)) r2))
           = events (snd (submitResponse t1 s r1))"
proof (cases "code (fst (submitResponse t1 s r1)) \<in> {200, 201}")
  case True
  with assms(1-3) show ?thesis by (rule idempotence_after_success)
next
  case False
  with assms have "r2 = r1" by simp
  moreover from False submitResponse_cases[of t1 s r1] have "snd (submitResponse t1 s r1) = s"
    by auto
  ultimately show ?thesis
    using submitResponse_failure_time[OF False, of t2] by simp
qed

theorem idempotence_witness:
  "code (fst (submitResponse 200 demo_store (demo_request 1 ''a@x.com'' (JStr ''Attending''))))
     \<in> {200, 201}
   \<and> events (snd (submitResponse 300
        (snd (submitResponse 200 demo_store (demo_request 1 ''a@x.com'' (JStr ''Attending''))))
        (demo_request 1 ''a@x.com'' (JStr ''Attending''))))
      = events (snd (submitResponse 200 demo_store
          (demo_request 1 ''a@x.com'' (JStr ''Attending''))))"
proof -
  have h: "code (fst (submitResponse 200 demo_store
             (demo_request 1 ''a@x.com'' (JStr ''Attending'')))) \<in> {200, 201}"
    by code_simp
  show ?thesis
    using h idempotence [OF refl refl refl disjI1, OF h, of 300] by blast
qed

section \<open>Uniqueness\<close>

lemma update_attendee_unique:
  assumes "update_attendee now st n eid email s = Inr s1"
  shows "map (\<lambda>a. (eventId a, attendeeEmail a)) (eventAttendees s1)
           = map (\<lambda>a. (eventId a, attendeeEmail a)) (eventAttendees s)"
  using assms
  by (auto simp: update_attendee_def split: if_splits)

lemma insert_attendee_unique:
  assumes "insert_attendee now eid email st n s = Inr s1" and "unique_pairs s"
  shows "unique_pairs s1"
proof -
  from assms(1) obtain rid where
    new: "\<not> (\<exists>a \<in> set (eventAttendees s). same_pair eid email a)"
    and s1: "eventAttendees s1 = eventAttendees s @
                     [\<lparr>attendee_id = rid, eventId = eid, attendeeEmail = email,
                       responseStatus = st, rsvpDate = now, attendee_notes = n,
                       attendee_created_at = now\<rparr>]"
    by (auto simp: insert_attendee_def split: if_splits option.splits)
  from new have "(eid, email) \<notin> set (map (\<lambda>a. (eventId a, attendeeEmail a)) (eventAttendees s))"
    by (force simp: same_pair_def)
  with assms(2) show ?thesis by (simp add: unique_pairs_def s1)
qed

lemma submitResponse_unique:
  assumes "unique_pairs s"
  shows "unique_pairs (snd (submitResponse now s req))"
proof -
  from submitResponse_cases[of now s req] show ?thesis
  proof
    assume "snd (submitResponse now s req) = s \<and> code (fst (submitResponse now s req)) \<in> {400, 404, 409, 500}"
    with assms show ?thesis by simp
  next
    assume "\<exists>eid email. param_eventId req = Some eid \<and> 0 < eid \<and> body_attendeeEmail req = JStr email
        \<and> valid_request req
        \<and> code (fst (submitResponse now s req)) \<in> {200, 201}
        \<and> upsert_transaction now eid email (finalResponseStatus (body_responseStatus req))
             (body_notes req) s = Inr (submitResponse now s req)"
    then obtain eid email where
      tx: "upsert_transaction now eid email (finalResponseStatus (body_responseStatus req))
             (body_notes req) s = Inr (submitResponse now s req)"
      by blast
    obtain res s' where sr: "submitResponse now s req = (res, s')"
      by (cases "submitResponse now s req")
    from upsert_transaction_cases[OF tx[unfolded sr]] assms have "unique_pairs s'"
      by (auto simp: unique_pairs_def[of "increment_counter _ _ _"]
                     unique_pairs_def[of s] update_attendee_unique
               dest: insert_attendee_unique[unfolded unique_pairs_def])
    with sr show ?thesis by simp
  qed
qed

lemma run_upserts_unique:
  "unique_pairs s \<Longrightarrow> unique_pairs (run_upserts s calls)"
proof (induction calls arbitrary: s)
  case Nil
  then show ?case by simp
next
  case (Cons c calls)
  obtain now req where c: "c = (now, req)" by (cases c)
  from Cons show ?case unfolding c by (simp add: submitResponse_unique)
qed

lemma distinct_key_filter:
  "distinct (map key xs) \<Longrightarrow> length (filter (\<lambda>x. key x = k) xs) \<le> 1"
proof (induction xs)
  case Nil
  then show ?case by simp
next
  case (Cons x xs)
  show ?case
  proof (cases "key x = k")
    case True
    from Cons.prems have "key x \<notin> key ` set xs" by simp
    with True have "\<forall>y \<in> set xs. key y \<noteq> k" by blast
    then have "filter (\<lambda>x. key x = k) xs = []" by (simp add: filter_empty_conv)
    with True show ?thesis by simp
  next
    case False
    with Cons show ?thesis by simp
  qed
qed

lemma unique_pairs_rows:
  assumes "unique_pairs s" and "find (same_pair eid email) (eventAttendees s) = Some a"
  shows "length (filter (same_pair eid email) (eventAttendees s)) = 1"
proof -
  have eq: "same_pair eid email = (\<lambda>a. (eventId a, attendeeEmail a) = (eid, email))"
    by (auto simp: same_pair_def)
  from assms(1) have "length (filter (same_pair eid email) (eventAttendees s)) \<le> 1"
    unfolding eq unique_pairs_def by (rule distinct_key_filter)
  moreover from assms(2) have "a \<in> set (filter (same_pair eid email) (eventAttendees s))"
    by (auto simp: find_Some_iff)
  then have "length (filter (same_pair eid email) (eventAttendees s)) \<noteq> 0"
    by (metis length_0_conv empty_iff list.set(1))
  ultimately show ?thesis by linarith
qed

text \<open>
  Claim C3 (uniqueness, upsert). From a store in which no two RSVP rows share
  \<open>(eventId, attendeeEmail)\<close>, no sequence of submissions produces two such rows. After a
  submission for a pair that was answered 200 or 201, a second valid submission for the
  same pair is answered 200 as an update, not 201, and the pair has exactly one row. The
  table after the second call is the table after the first with the pair's row written in
  place: its \<open>responseStatus\<close>, \<open>notes\<close> and \<open>rsvpDate\<close> are those of the second call, its id,
  event, e-mail address and \<open>created_at\<close> are kept, and every other row is untouched.
\<close>

theorem uniqueness:
  assumes "unique_pairs s"
  shows "unique_pairs (run_upserts s calls)
    \<and> (param_eventId r1 = Some eid \<and> body_attendeeEmail r1 = JStr email
       \<and> code (fst (submitResponse t1 s r1)) \<in> {200, 201}
       \<and> param_eventId r2 = Some eid \<and> body_attendeeEmail r2 = JStr email
       \<and> valid_request r2 \<and> body_notes r2 \<noteq> JBool True
       \<longrightarrow> fst (submitResponse t2 (snd (submitResponse t1 s r1)) r2) = Response 200 ResponseUpdated
         \<and> length (filter (same_pair eid email)
              (eventAttendees (snd (submitResponse t2 (snd (submitResponse t1 s r1)) r2)))) = 1
         \<and> (\<exists>st. finalResponseStatus (body_responseStatus r2) = Some st
              \<and> eventAttendees (snd (submitResponse t2 (snd (submitResponse t1 s r1)) r2))
                = map (\<lambda>a. if same_pair eid email a
                           then a\<lparr>responseStatus := st,
                                  attendee_notes :=
                                    (if truthy (body_notes r2) then body_notes r2 else JNull),
                                  rsvpDate := t2\<rparr>
                           else a)
                      (eventAttendees (snd (submitResponse t1 s r1)))))"
proof (intro conjI impI)
  show "unique_pairs (run_upserts s calls)" using assms by (rule run_upserts_unique)
next
  assume h: "param_eventId r1 = Some eid \<and> body_attendeeEmail r1 = JStr email
       \<and> code (fst (submitResponse t1 s r1)) \<in> {200, 201}
       \<and> param_eventId r2 = Some eid \<and> body_attendeeEmail r2 = JStr email
       \<and> valid_request r2 \<and> body_notes r2 \<noteq> JBool True"
  obtain res1 s1 where sr1: "submitResponse t1 s r1 = (res1, s1)" by (cases "submitResponse t1 s r1")
  from submitResponse_cases[of t1 s r1] h sr1
  have tx1: "upsert_transaction t1 eid email (finalResponseStatus (body_responseStatus r1))
             (body_notes r1) s = Inr (res1, s1)" and "code res1 \<noteq> 404"
    by auto
  from upsert_transaction_find[OF this]
  obtain a where fa: "find (same_pair eid email) (eventAttendees s1) = Some a" by blast
  from h valid_request_final obtain st2 where
    fin2: "finalResponseStatus (body_responseStatus r2) = Some st2" by blast
  from h have b: "bindable (if truthy (body_notes r2) then body_notes r2 else JNull)"
    by (cases "body_notes r2") auto
  define s2 where "s2 = increment_counter st2 eid (decrement_counter (responseStatus a) eid
      (s1\<lparr>eventAttendees :=
          map (\<lambda>a. if same_pair eid email a
                    then a\<lparr>responseStatus := st2,
                           attendee_notes :=
                             (if truthy (body_notes r2) then body_notes r2 else JNull),
                           rsvpDate := t2\<rparr>
                    else a)
              (eventAttendees s1)\<rparr>))"
  have tx2: "upsert_transaction t2 eid email (Some st2) (body_notes r2) s1
     = Inr (Response 200 ResponseUpdated, s2)"
    using fa b by (simp add: upsert_transaction_def update_attendee_def s2_def)
  have rows2: "eventAttendees s2
     = map (\<lambda>a. if same_pair eid email a
                    then a\<lparr>responseStatus := st2,
                           attendee_notes :=
                             (if truthy (body_notes r2) then body_notes r2 else JNull),
                           rsvpDate := t2\<rparr>
                    else a)
           (eventAttendees s1)"
    by (simp add: s2_def)
  from h have sr2: "submitResponse t2 s1 r2 = (Response 200 ResponseUpdated, s2)"
    by (simp add: submitResponse_valid[of r2 eid email] fin2 tx2)
  show "fst (submitResponse t2 (snd (submitResponse t1 s r1)) r2) = Response 200 ResponseUpdated"
    by (simp add: sr1 sr2)
  from assms have u1: "unique_pairs s1" using submitResponse_unique[of s t1 r1] by (simp add: sr1)
  then have u2: "unique_pairs s2" using submitResponse_unique[of s1 t2 r2] by (simp add: sr2)
  from upsert_transaction_find[OF tx2] obtain a2 where
    "find (same_pair eid email) (eventAttendees s2) = Some a2" by auto
  from unique_pairs_rows[OF u2 this]
  show "length (filter (same_pair eid email)
              (eventAttendees (snd (submitResponse t2 (snd (submitResponse t1 s r1)) r2)))) = 1"
    by (simp add: sr1 sr2)
  from fin2 rows2
  show "\<exists>st. finalResponseStatus (body_responseStatus r2) = Some st
              \<and> eventAttendees (snd (submitResponse t2 (snd (submitResponse t1 s r1)) r2))
                = map (\<lambda>a. if same_pair eid email a
                           then a\<lparr>responseStatus := st,
                                  attendee_notes :=
                                    (if truthy (body_notes r2) then body_notes r2 else JNull),
                                  rsvpDate := t2\<rparr>
                           else a)
                      (eventAttendees (snd (submitResponse t1 s r1)))"
    by (simp add: sr1 sr2)
qed

theorem uniqueness_witness:
  "unique_pairs demo_store
   \<and> param_eventId (demo_request 1 ''d@x.com'' JUndefined) = Some 1
   \<and> body_attendeeEmail (demo_request 1 ''d@x.com'' JUndefined) = JStr ''d@x.com''
   \<and> code (fst (submitResponse 200 demo_store (demo_request 1 ''d@x.com'' JUndefined))) \<in> {200, 201}
   \<and> param_eventId (demo_request 1 ''d@x.com'' (JStr ''Maybe'')) = Some 1
   \<and> body_attendeeEmail (demo_request 1 ''d@x.com'' (JStr ''Maybe'')) = JStr ''d@x.com''
   \<and> valid_request (demo_request 1 ''d@x.com'' (JStr ''Maybe''))
   \<and> body_notes (demo_request 1 ''d@x.com'' (JStr ''Maybe'')) \<noteq> JBool True
   \<and> unique_pairs (run_upserts demo_store
        [(200, demo_request 1 ''d@x.com'' JUndefined),
         (300, demo_request 1 ''d@x.com'' (JStr ''Maybe''))])
   \<and> fst (submitResponse 300
            (snd (submitResponse 200 demo_store (demo_request 1 ''d@x.com'' JUndefined)))
            (demo_request 1 ''d@x.com'' (JStr ''Maybe''))) = Response 200 ResponseUpdated
   \<and> length (filter (same_pair 1 ''d@x.com'')
        (eventAttendees (snd (submitResponse 300
            (snd (submitResponse 200 demo_store (demo_request 1 ''d@x.com'' JUndefined)))
            (demo_request 1 ''d@x.com'' (JStr ''Maybe'')))))) = 1
   \<and> eventAttendees (snd (submitResponse 200 demo_store (demo_request 1 ''d@x.com'' JUndefined)))
      = [demo_row 1 ''a@x.com'' Pending, demo_row 2 ''b@x.com'' Pending,
         demo_row 3 ''c@x.com'' Attending,
         \<lparr>attendee_id = 4, eventId = 1, attendeeEmail = ''d@x.com'', responseStatus = Pending,
          rsvpDate = 200, attendee_notes = JNull, attendee_created_at = 200\<rparr>]
   \<and> eventAttendees (snd (submitResponse 300
            (snd (submitResponse 200 demo_store (demo_request 1 ''d@x.com'' JUndefined)))
            (demo_request 1 ''d@x.com'' (JStr ''Maybe''))))
      = [demo_row 1 ''a@x.com'' Pending, demo_row 2 ''b@x.com'' Pending,
         demo_row 3 ''c@x.com'' Attending,
         \<lparr>attendee_id = 4, eventId = 1, attendeeEmail = ''d@x.com'', responseStatus = Maybe,
          rsvpDate = 300, attendee_notes = JNull, attendee_created_at = 200\<rparr>]"
proof -
  have e1: "eventAttendees (snd (submitResponse 200 demo_store
        (demo_request 1 ''d@x.com'' JUndefined)))
      = [demo_row 1 ''a@x.com'' Pending, demo_row 2 ''b@x.com'' Pending,
         demo_row 3 ''c@x.com'' Attending,
         \<lparr>attendee_id = 4, eventId = 1, attendeeEmail = ''d@x.com'', responseStatus = Pending,
          rsvpDate = 200, attendee_notes = JNull, attendee_created_at = 200\<rparr>]"
    by code_simp
  have h: "unique_pairs demo_store" by code_simp
  have h1: "param_eventId (demo_request 1 ''d@x.com'' JUndefined) = Some 1"
    and h2: "body_attendeeEmail (demo_request 1 ''d@x.com'' JUndefined) = JStr ''d@x.com''"
    and h4: "param_eventId (demo_request 1 ''d@x.com'' (JStr ''Maybe'')) = Some 1"
    and h5: "body_attendeeEmail (demo_request 1 ''d@x.com'' (JStr ''Maybe'')) = JStr ''d@x.com''"
    and h7: "body_notes (demo_request 1 ''d@x.com'' (JStr ''Maybe'')) \<noteq> JBool True"
    by (simp_all add: demo_request_def)
  have h3: "code (fst (submitResponse 200 demo_store (demo_request 1 ''d@x.com'' JUndefined)))
              \<in> {200, 201}"
    by code_simp
  have h6: "valid_request (demo_request 1 ''d@x.com'' (JStr ''Maybe''))" by code_simp
  note u = uniqueness [OF h, where ?r1.0 = "demo_request 1 ''d@x.com'' JUndefined"
        and ?r2.0 = "demo_request 1 ''d@x.com'' (JStr ''Maybe'')" and eid = 1
        and email = "''d@x.com''" and ?t1.0 = 200 and ?t2.0 = 300
        and calls = "[(200, demo_request 1 ''d@x.com'' JUndefined),
                      (300, demo_request 1 ''d@x.com'' (JStr ''Maybe''))]"]
  from u h1 h2 h3 h4 h5 h6 h7 obtain st where
    st: "finalResponseStatus (body_responseStatus (demo_request 1 ''d@x.com'' (JStr ''Maybe'')))
           = Some st"
    and m: "eventAttendees (snd (submitResponse 300
            (snd (submitResponse 200 demo_store (demo_request 1 ''d@x.com'' JUndefined)))
            (demo_request 1 ''d@x.com'' (JStr ''Maybe''))))
        = map (\<lambda>a. if same_pair 1 ''d@x.com'' a
                  then a\<lparr>responseStatus := st,
                         attendee_notes :=
                           (if truthy (body_notes (demo_request 1 ''d@x.com'' (JStr ''Maybe'')))
                            then body_notes (demo_request 1 ''d@x.com'' (JStr ''Maybe''))
                            else JNull),
                         rsvpDate := 300\<rparr>
                  else a)
              (eventAttendees (snd (submitResponse 200 demo_store
                 (demo_request 1 ''d@x.com'' JUndefined))))"
    by blast
  have "finalResponseStatus (body_responseStatus (demo_request 1 ''d@x.com'' (JStr ''Maybe'')))
           = Some Maybe"
    by code_simp
  with st have "st = Maybe" by simp
  then have e2: "eventAttendees (snd (submitResponse 300
            (snd (submitResponse 200 demo_store (demo_request 1 ''d@x.com'' JUndefined)))
            (demo_request 1 ''d@x.com'' (JStr ''Maybe''))))
      = [demo_row 1 ''a@x.com'' Pending, demo_row 2 ''b@x.com'' Pending,
         demo_row 3 ''c@x.com'' Attending,
         \<lparr>attendee_id = 4, eventId = 1, attendeeEmail = ''d@x.com'', responseStatus = Maybe,
          rsvpDate = 300, attendee_notes = JNull, attendee_created_at = 200\<rparr>]"
    unfolding m e1 by (simp add: demo_row_def same_pair_def demo_request_def)
  show ?thesis
    using h h1 h2 h3 h4 h5 h6 h7 u e1 e2 by blast
qed

section \<open>Transitions\<close>

lemma sql_add_transfer:
  "sql_add (sql_add x (- a)) b = sql_add x (b - a)"
  by (cases x) (simp_all add: sql_add_def)

lemma counter_after_transfer:
  assumes "i < length (events s)" and "event_id (events s ! i) = eid"
  shows "counter c (events (increment_counter new eid (decrement_counter old eid s)) ! i)
           = sql_add (counter c (events s ! i))
               ((if c = new then 1 else 0) - (if c = old then 1 else 0))"
proof -
  have z: "sql_add x 0 = x" for x by (cases x) (simp_all add: sql_add_def)
  have m: "sql_add (sql_add x (- 1)) 1 = x" for x by (cases x) (simp_all add: sql_add_def)
  show ?thesis
    using assms
    by (cases c; cases new; cases old)
       (simp_all add: increment_counter_events decrement_counter_events z m)
qed

lemma others_after_transfer:
  assumes "i < length (events s)" and "event_id (events s ! i) \<noteq> eid"
  shows "events (increment_counter new eid (decrement_counter old eid s)) ! i = events s ! i"
  using assms by (simp add: increment_counter_events decrement_counter_events)

lemma length_after_transfer:
  "length (events (increment_counter new eid (decrement_counter old eid s))) = length (events s)"
  by (simp add: increment_counter_events decrement_counter_events)

text \<open>
  Claim C4 (transition correctness). When the attendee's row has status \<open>old\<close> and a valid
  submission sets it to \<open>new\<close>, the call answers 200, and on the event's row the counter
  of \<open>new\<close> gains one, the counter of \<open>old\<close> loses one and the other counters keep their
  values; the rows of other events are unchanged. With counters Attending 1 and Pending 2,
  a change from Pending to Attending gives Attending 2 and Pending 1.
\<close>

theorem transition_correctness:
  assumes "valid_request req" and "param_eventId req = Some eid"
    and "body_attendeeEmail req = JStr email"
    and "finalResponseStatus (body_responseStatus req) = Some new"
    and "body_notes req \<noteq> JBool True"
    and "find (same_pair eid email) (eventAttendees s) = Some a" and "responseStatus a = old"
  shows "fst (submitResponse now s req) = Response 200 ResponseUpdated
    \<and> length (events (snd (submitResponse now s req))) = length (events s)
    \<and> (\<forall>i < length (events s).
         if event_id (events s ! i) = eid
         then \<forall>c. counter c (events (snd (submitResponse now s req)) ! i)
                = sql_add (counter c (events s ! i))
                    ((if c = new then 1 else 0) - (if c = old then 1 else 0))
         else events (snd (submitResponse now s req)) ! i = events s ! i)"
proof -
  from assms(5) have b: "bindable (if truthy (body_notes req) then body_notes req else JNull)"
    by (cases "body_notes req") auto
  define s1 where "s1 = s\<lparr>eventAttendees :=
        map (\<lambda>a. if same_pair eid email a
                  then a\<lparr>responseStatus := new,
                         attendee_notes := (if truthy (body_notes req) then body_notes req else JNull),
                         rsvpDate := now\<rparr> else a)
            (eventAttendees s)\<rparr>"
  have ev: "events s1 = events s" by (simp add: s1_def)
  have "upsert_transaction now eid email (Some new) (body_notes req) s
          = Inr (Response 200 ResponseUpdated,
                 increment_counter new eid (decrement_counter old eid s1))"
    using assms(6,7) b by (simp add: upsert_transaction_def update_attendee_def s1_def)
  then have sr: "submitResponse now s req = (Response 200 ResponseUpdated,
                 increment_counter new eid (decrement_counter old eid s1))"
    by (simp add: submitResponse_valid[OF assms(1-3)] assms(4))
  show ?thesis
    unfolding sr
    using counter_after_transfer[of _ s1 eid _ new old] others_after_transfer[of _ s1 eid new old]
    by (simp add: length_after_transfer ev)
qed

theorem transition_correctness_witness:
  "valid_request (demo_request 1 ''a@x.com'' (JStr ''Attending''))
   \<and> param_eventId (demo_request 1 ''a@x.com'' (JStr ''Attending'')) = Some 1
   \<and> body_attendeeEmail (demo_request 1 ''a@x.com'' (JStr ''Attending'')) = JStr ''a@x.com''
   \<and> finalResponseStatus (body_responseStatus (demo_request 1 ''a@x.com'' (JStr ''Attending'')))
        = Some Attending
   \<and> body_notes (demo_request 1 ''a@x.com'' (JStr ''Attending'')) \<noteq> JBool True
   \<and> find (same_pair 1 ''a@x.com'') (eventAttendees demo_store)
        = Some (demo_row 1 ''a@x.com'' Pending)
   \<and> responseStatus (demo_row 1 ''a@x.com'' Pending) = Pending
   \<and> counter Attending (events demo_store ! 0) = Some 1
   \<and> counter Pending (events demo_store ! 0) = Some 2
   \<and> fst (submitResponse 200 demo_store (demo_request 1 ''a@x.com'' (JStr ''Attending'')))
        = Response 200 ResponseUpdated
   \<and> counter Attending (events (snd (submitResponse 200 demo_store
        (demo_request 1 ''a@x.com'' (JStr ''Attending'')))) ! 0) = Some 2
   \<and> counter Pending (events (snd (submitResponse 200 demo_store
        (demo_request 1 ''a@x.com'' (JStr ''Attending'')))) ! 0) = Some 1
   \<and> counter NotAttending (events (snd (submitResponse 200 demo_store
        (demo_request 1 ''a@x.com'' (JStr ''Attending'')))) ! 0) = Some 0
   \<and> counter Maybe (events (snd (submitResponse 200 demo_store
        (demo_request 1 ''a@x.com'' (JStr ''Attending'')))) ! 0) = Some 0"
proof -
  have h1: "valid_request (demo_request 1 ''a@x.com'' (JStr ''Attending''))" by code_simp
  have h2: "param_eventId (demo_request 1 ''a@x.com'' (JStr ''Attending'')) = Some 1"
    and h3: "body_attendeeEmail (demo_request 1 ''a@x.com'' (JStr ''Attending'')) = JStr ''a@x.com''"
    and h5: "body_notes (demo_request 1 ''a@x.com'' (JStr ''Attending'')) \<noteq> JBool True"
    by (simp_all add: demo_request_def)
  have h4: "finalResponseStatus (body_responseStatus (demo_request 1 ''a@x.com'' (JStr ''Attending'')))
        = Some Attending"
    by code_simp
  have h6: "find (same_pair 1 ''a@x.com'') (eventAttendees demo_store)
        = Some (demo_row 1 ''a@x.com'' Pending)"
    by (simp add: demo_store_def demo_row_def same_pair_def)
  have h7: "responseStatus (demo_row 1 ''a@x.com'' Pending) = Pending"
    by (simp add: demo_row_def)
  have e0: "events demo_store ! 0 = demo_event" "0 < length (events demo_store)"
    by (simp_all add: demo_store_def)
  have before: "counter Attending (events demo_store ! 0) = Some 1"
    "counter Pending (events demo_store ! 0) = Some 2"
    "counter NotAttending (events demo_store ! 0) = Some 0"
    "counter Maybe (events demo_store ! 0) = Some 0"
    by (simp_all add: e0 demo_event_def)
  note t = transition_correctness [OF h1 h2 h3 h4 h5 h6 h7, of 200]
  from t e0 have after: "counter c (events (snd (submitResponse 200 demo_store
        (demo_request 1 ''a@x.com'' (JStr ''Attending'')))) ! 0)
      = sql_add (counter c (events demo_store ! 0))
          ((if c = Attending then 1 else 0) - (if c = Pending then 1 else 0))" for c
    by (simp add: demo_event_def)
  from t have ok: "fst (submitResponse 200 demo_store (demo_request 1 ''a@x.com'' (JStr ''Attending'')))
        = Response 200 ResponseUpdated" by blast
  show ?thesis
    using h1 h2 h3 h4 h5 h6 h7 ok before
    by (simp add: after sql_add_def)
qed

section \<open>Errors leave the store as it was\<close>

text \<open>
  Claim C5, as amended (NotFound with rollback). A call that passes validation (a positive
  integer event id, a well-formed e-mail address, an allowed or absent status), for a pair
  with no RSVP row and an id with no event row, answers 404 and leaves the store as it
  was. A call that fails validation answers 400 and leaves the store as it was. Every call
  answered with anything but 200 or 201 leaves the store as it was.
\<close>

theorem not_found_rollback:
  "(valid_request req \<and> param_eventId req = Some eid \<and> body_attendeeEmail req = JStr email
      \<and> \<not> has_rsvp s eid email \<and> \<not> has_event s eid
     \<longrightarrow> submitResponse now s req = (Response 404 (EventIdNotFound eid), s))
   \<and> (\<not> valid_request req
     \<longrightarrow> code (fst (submitResponse now s req)) = 400 \<and> snd (submitResponse now s req) = s)
   \<and> (code (fst (submitResponse now s req)) \<notin> {200, 201}
     \<longrightarrow> snd (submitResponse now s req) = s)"
proof (intro conjI impI)
  assume h: "valid_request req \<and> param_eventId req = Some eid \<and> body_attendeeEmail req = JStr email
      \<and> \<not> has_rsvp s eid email \<and> \<not> has_event s eid"
  then have "upsert_transaction now eid email (finalResponseStatus (body_responseStatus req))
               (body_notes req) s = Inr (Response 404 (EventIdNotFound eid), s)"
    by (simp add: upsert_transaction_def has_rsvp_find has_event_find)
  with h show "submitResponse now s req = (Response 404 (EventIdNotFound eid), s)"
    by (simp add: submitResponse_valid[of req eid email])
next
  assume "\<not> valid_request req"
  then show "code (fst (submitResponse now s req)) = 400"
    by (auto simp: submitResponse_def valid_request_def split: option.splits json.splits)
next
  assume "\<not> valid_request req"
  then show "snd (submitResponse now s req) = s"
    by (auto simp: submitResponse_def valid_request_def split: option.splits json.splits)
next
  assume "code (fst (submitResponse now s req)) \<notin> {200, 201}"
  with submitResponse_cases[of now s req] show "snd (submitResponse now s req) = s"
    by auto
qed

theorem not_found_rollback_witness:
  "valid_request (demo_request 999 ''a@x.com'' (JStr ''Attending''))
   \<and> param_eventId (demo_request 999 ''a@x.com'' (JStr ''Attending'')) = Some 999
   \<and> body_attendeeEmail (demo_request 999 ''a@x.com'' (JStr ''Attending'')) = JStr ''a@x.com''
   \<and> \<not> has_rsvp demo_store 999 ''a@x.com'' \<and> \<not> has_event demo_store 999
   \<and> code (fst (submitResponse 200 demo_store (demo_request 999 ''a@x.com'' (JStr ''Attending''))))
        \<notin> {200, 201}
   \<and> \<not> valid_request (demo_request 1 ''nobody'' (JStr ''Attending''))
   \<and> submitResponse 200 demo_store (demo_request 999 ''a@x.com'' (JStr ''Attending''))
        = (Response 404 (EventIdNotFound 999), demo_store)
   \<and> code (fst (submitResponse 200 demo_store (demo_request 1 ''nobody'' (JStr ''Attending''))))
        = 400
   \<and> snd (submitResponse 200 demo_store (demo_request 1 ''nobody'' (JStr ''Attending'')))
        = demo_store"
proof -
  have h1: "valid_request (demo_request 999 ''a@x.com'' (JStr ''Attending''))" by code_simp
  have h2: "param_eventId (demo_request 999 ''a@x.com'' (JStr ''Attending'')) = Some 999"
    and h3: "body_attendeeEmail (demo_request 999 ''a@x.com'' (JStr ''Attending'')) = JStr ''a@x.com''"
    by (simp_all add: demo_request_def)
  have h4: "\<not> has_rsvp demo_store 999 ''a@x.com''" by code_simp
  have h5: "\<not> has_event demo_store 999" by code_simp
  have h6: "\<not> valid_request (demo_request 1 ''nobody'' (JStr ''Attending''))" by code_simp
  note a = not_found_rollback [of "demo_request 999 ''a@x.com'' (JStr ''Attending'')" 999
      "''a@x.com''" demo_store 200]
  note b = not_found_rollback [of "demo_request 1 ''nobody'' (JStr ''Attending'')" 1
      "''nobody''" demo_store 200]
  from a h1 h2 h3 h4 h5
  have r: "submitResponse 200 demo_store (demo_request 999 ''a@x.com'' (JStr ''Attending''))
        = (Response 404 (EventIdNotFound 999), demo_store)" by blast
  then have c: "code (fst (submitResponse 200 demo_store
      (demo_request 999 ''a@x.com'' (JStr ''Attending'')))) \<notin> {200, 201}" by simp
  from b h6 have "code (fst (submitResponse 200 demo_store
      (demo_request 1 ''nobody'' (JStr ''Attending'')))) = 400
    \<and> snd (submitResponse 200 demo_store (demo_request 1 ''nobody'' (JStr ''Attending'')))
        = demo_store" by blast
  with h1 h2 h3 h4 h5 h6 r c show ?thesis by blast
qed

text \<open>
  The claim as first stated fails: with no RSVP row for the pair and no event with the id,
  a call whose event id is 0 is answered 400, not 404.
\<close>

theorem not_found_counterexample:
  "\<not> has_rsvp demo_store 0 ''a@x.com'' \<and> \<not> has_event demo_store 0
   \<and> submitResponse 200 demo_store (demo_request 0 ''a@x.com'' (JStr ''Attending''))
        = (Response 400 InvalidEventId, demo_store)"
  by code_simp

section \<open>The default status\<close>




section \<open>Creating an event\<close>


lemma fold_max_bounds:
  "seq \<le> fold max ids seq \<and> (\<forall>x \<in> set ids. x \<le> fold max ids (seq::int))"
proof (induction ids arbitrary: seq)
  case Nil
  then show ?case by simp
next
  case (Cons a ids)
  from Cons[of "max a seq"] show ?case by auto
qed

lemma next_rowid_fresh:
  assumes "next_rowid seq ids = Some rid"
  shows "rid \<notin> set ids"
proof
  assume "rid \<in> set ids"
  with fold_max_bounds[of seq ids] have "rid \<le> fold max ids seq" by blast
  with assms show False by (simp add: next_rowid_def split: if_splits)
qed

lemma createEvent_cases:
  "(code (fst (createEvent now s req)) \<in> {400, 500} \<and> snd (createEvent now s req) = s)
   \<or> (\<exists>rid. next_rowid (events_seq s) (map event_id (events s)) = Some rid
        \<and> typeof (body_creatorEmail req) = TString \<and> typeof (body_eventName req) = TString
        \<and> typeof (body_description req) = TString \<and> typeof (body_eventDate req) = TString
        \<and> typeof (body_eventStartTime req) = TString \<and> typeof (body_eventEndTime req) = TString
        \<and> typeof (body_targetedAttendees req) = TNumber
        \<and> isInteger (num_of (body_targetedAttendees req))
        \<and> fst (createEvent now s req) = Response 201 (EventCreated rid 1)
        \<and> events (snd (createEvent now s req)) = events s @
             [\<lparr>event_id = rid, creatorEmail = str_of (body_creatorEmail req),
               eventName = str_of (body_eventName req),
               description = Some (str_of (body_description req)),
               targetedAttendees = integer_of (num_of (body_targetedAttendees req)),
               eventDate = Some (str_of (body_eventDate req)),
               eventStartTime = Some (str_of (body_eventStartTime req)),
               eventEndTime = Some (str_of (body_eventEndTime req)),
               eventDuration = None, status = Created, created_at = now,
               attendingCount = Some 0, notAttendingCount = Some 0,
               maybeCount = Some 0, pendingCount = Some 0\<rparr>])"
  by (simp add: createEvent_def insert_event_def split: option.splits)

lemma typeof_string: "typeof v = TString \<Longrightarrow> JStr (str_of v) = v"
  by (cases v) simp_all

lemma typeof_number: "typeof v = TNumber \<Longrightarrow> JNumber (num_of v) = v"
  by (cases v) simp_all



section \<open>Publish and cancel\<close>

lemma set_status_events:
  "events (snd (set_status st p s))
     = map (\<lambda>e. if id_matches p e then e\<lparr>status := st\<rparr> else e) (events s)"
  by (simp add: set_status_def)

lemma set_status_changes:
  "fst (set_status st p s) = 0 \<longleftrightarrow> \<not> row_matched s p"
  by (auto simp: set_status_def row_matched_def filter_empty_conv)

text \<open>
  Claim C8 (publish and cancel). \<open>publish\<close> answers 404 exactly when no event row has the
  id, and 200 when one has; it sets the status of every row with the id to \<open>Published\<close>,
  whatever the status was, and leaves the other rows as they were. \<open>cancel\<close> does the same
  with \<open>Cancelled\<close>.
\<close>

theorem lifecycle:
  "(code (fst (publish s p)) = 404 \<longleftrightarrow> \<not> row_matched s p)
   \<and> (row_matched s p \<longrightarrow> fst (publish s p) = Response 200 EventPublished)
   \<and> length (events (snd (publish s p))) = length (events s)
   \<and> (\<forall>i < length (events s). events (snd (publish s p)) ! i =
         (if id_matches p (events s ! i) then (events s ! i)\<lparr>status := Published\<rparr>
          else events s ! i))
   \<and> (code (fst (cancel s p)) = 404 \<longleftrightarrow> \<not> row_matched s p)
   \<and> (row_matched s p \<longrightarrow> fst (cancel s p) = Response 200 EventCancelled)
   \<and> length (events (snd (cancel s p))) = length (events s)
   \<and> (\<forall>i < length (events s). events (snd (cancel s p)) ! i =
         (if id_matches p (events s ! i) then (events s ! i)\<lparr>status := Cancelled\<rparr>
          else events s ! i))"
proof -
  have pub: "publish s p = (if fst (set_status Published p s) = 0
       then (Response 404 EventNotFound, snd (set_status Published p s))
       else (Response 200 EventPublished, snd (set_status Published p s)))"
    by (simp add: publish_def split: prod.splits)
  have can: "cancel s p = (if fst (set_status Cancelled p s) = 0
       then (Response 404 EventNotFound, snd (set_status Cancelled p s))
       else (Response 200 EventCancelled, snd (set_status Cancelled p s)))"
    by (simp add: cancel_def split: prod.splits)
  show ?thesis
    by (simp add: pub can set_status_changes set_status_events)
qed

theorem lifecycle_witness:
  "row_matched demo_store (Some 1)
   \<and> \<not> row_matched demo_store (Some 999)
   \<and> row_matched (snd (cancel demo_store (Some 1))) (Some 1)
   \<and> fst (cancel demo_store (Some 1)) = Response 200 EventCancelled
   \<and> status (events (snd (cancel demo_store (Some 1))) ! 0) = Cancelled
   \<and> fst (publish (snd (cancel demo_store (Some 1))) (Some 1)) = Response 200 EventPublished
   \<and> status (events (snd (publish (snd (cancel demo_store (Some 1))) (Some 1))) ! 0) = Published
   \<and> code (fst (publish demo_store (Some 999))) = 404
   \<and> code (fst (cancel demo_store (Some 999))) = 404"
proof -
  have h1: "row_matched demo_store (Some 1)" by code_simp
  have h2: "\<not> row_matched demo_store (Some 999)" by code_simp
  have h3: "row_matched (snd (cancel demo_store (Some 1))) (Some 1)" by code_simp
  have l: "0 < length (events demo_store)" "id_matches (Some 1) (events demo_store ! 0)"
    by (simp_all add: demo_store_def demo_event_def id_matches_def)
  note a = lifecycle [of demo_store "Some 1"]
  from a l have c: "events (snd (cancel demo_store (Some 1))) ! 0
      = (events demo_store ! 0)\<lparr>status := Cancelled\<rparr>"
    by simp
  from a have n: "length (events (snd (cancel demo_store (Some 1)))) = length (events demo_store)"
    by blast
  note b = lifecycle [of "snd (cancel demo_store (Some 1))" "Some 1"]
  from c l have m: "id_matches (Some 1) (events (snd (cancel demo_store (Some 1))) ! 0)"
    by (simp add: id_matches_def)
  from b l n m have p: "events (snd (publish (snd (cancel demo_store (Some 1))) (Some 1))) ! 0
      = (events (snd (cancel demo_store (Some 1))) ! 0)\<lparr>status := Published\<rparr>"
    by simp
  from a h1 have r1: "fst (cancel demo_store (Some 1)) = Response 200 EventCancelled" by blast
  from b h3 have r2: "fst (publish (snd (cancel demo_store (Some 1))) (Some 1))
      = Response 200 EventPublished" by blast
  from lifecycle [of demo_store "Some 999"] h2
  have r3: "code (fst (publish demo_store (Some 999))) = 404"
    "code (fst (cancel demo_store (Some 999))) = 404" by blast+
  show ?thesis
    using h1 h2 h3 r1 r2 r3 by (simp add: c p)
qed

section \<open>Rounding to a double\<close>

lemma pow2_pos [simp]: "0 < pow2 e"
  by (simp add: pow2_def)

lemma pow2_add: "pow2 (a + b) = pow2 a * pow2 b"
  by (simp add: pow2_def power_int_add)

lemma pow2_diff: "pow2 (a - b) = pow2 a / pow2 b"
  by (simp add: pow2_def power_int_diff)

lemma pow2_nat: "0 \<le> e \<Longrightarrow> pow2 e = 2 ^ nat e"
  by (simp add: pow2_def power_int_def)

lemma pow2_mono: "a \<le> b \<Longrightarrow> pow2 a \<le> pow2 b"
  by (simp add: pow2_def power_int_increasing)

lemma pow2_less: "pow2 a < pow2 b \<Longrightarrow> a < b"
  using pow2_mono[of b a] by (cases "a < b") auto

lemma bitlen_pow2_bounds:
  assumes "0 < n"
  shows "pow2 (bitlen n - 1) \<le> of_int n" and "of_int n < pow2 (bitlen n)"
proof -
  from bitlen_bounds[OF assms] have b: "2 ^ nat (bitlen n - 1) \<le> n" "n < 2 ^ nat (bitlen n)"
    by simp_all
  from assms have "1 \<le> bitlen n" by (auto simp: bitlen_alt_def)
  then have p: "pow2 (bitlen n - 1) = 2 ^ nat (bitlen n - 1)" "pow2 (bitlen n) = 2 ^ nat (bitlen n)"
    by (simp_all add: pow2_nat)
  from b(1) have "(of_int (2 ^ nat (bitlen n - 1)) :: rat) \<le> of_int n" by (simp only: of_int_le_iff)
  then show "pow2 (bitlen n - 1) \<le> of_int n" by (simp add: p)
  from b(2) have "(of_int n :: rat) < of_int (2 ^ nat (bitlen n))" by (simp only: of_int_less_iff)
  then show "of_int n < pow2 (bitlen n)" by (simp add: p)
qed

lemma ilog2_bounds:
  assumes "0 < a"
  shows "pow2 (ilog2 a) \<le> a \<and> a < pow2 (ilog2 a + 1)"
proof -
  obtain n d where q: "quotient_of a = (n, d)" by (cases "quotient_of a")
  then have d: "0 < d" and a: "a = of_int n / of_int d"
    by (simp_all add: quotient_of_denom_pos quotient_of_div)
  from assms a d have n: "0 < n" by (simp add: zero_less_divide_iff)
  note bn = bitlen_pow2_bounds[OF n] and bd = bitlen_pow2_bounds[OF d]
  define k where "k = bitlen n - bitlen d"
  have lo: "pow2 (k - 1) \<le> a"
  proof -
    have "pow2 (k - 1) = pow2 (bitlen n - 1) / pow2 (bitlen d)"
      by (simp add: k_def flip: pow2_diff) (simp add: algebra_simps)
    also have "\<dots> \<le> of_int n / pow2 (bitlen d)"
      by (rule divide_right_mono[OF bn(1)]) (simp add: less_imp_le)
    also have "\<dots> \<le> of_int n / of_int d"
      using bd(2) n d by (simp add: frac_le)
    finally show ?thesis by (simp add: a)
  qed
  have hi: "a < pow2 (k + 1)"
  proof -
    have "a < pow2 (bitlen n) / of_int d"
      unfolding a by (rule divide_strict_right_mono[OF bn(2)]) (use d in simp)
    also have "\<dots> \<le> pow2 (bitlen n) / pow2 (bitlen d - 1)"
      by (rule divide_left_mono[OF bd(1)]) (use d in \<open>simp_all add: less_imp_le\<close>)
    also have "\<dots> = pow2 (k + 1)"
      by (simp add: k_def flip: pow2_diff) (simp add: algebra_simps)
    finally show ?thesis .
  qed
  have il: "ilog2 a = (if pow2 k \<le> a then k else k - 1)"
    by (simp add: ilog2_def q k_def Let_def)
  show ?thesis
    using lo hi by (auto simp: il)
qed

lemma ilog2_unique:
  assumes "pow2 k \<le> a" and "a < pow2 (k + 1)"
  shows "ilog2 a = k"
proof -
  from assms(1) have "0 < a" using pow2_pos[of k] by linarith
  from ilog2_bounds[OF this] have b: "pow2 (ilog2 a) \<le> a" "a < pow2 (ilog2 a + 1)" by simp_all
  from b(1) assms(2) have "pow2 (ilog2 a) < pow2 (k + 1)" by linarith
  then have "ilog2 a < k + 1" by (rule pow2_less)
  moreover from assms(1) b(2) have "pow2 k < pow2 (ilog2 a + 1)" by linarith
  then have "k < ilog2 a + 1" by (rule pow2_less)
  ultimately show ?thesis by linarith
qed

lemma round_half_even_int [simp]: "round_half_even (of_int z) = z"
  by (simp add: round_half_even_def)

lemma to_double_of_double:
  assumes "is_double q"
  shows "to_double q = Finite q"
proof (cases "q = 0")
  case True
  then show ?thesis by (simp add: to_double_def)
next
  case False
  from assms obtain m e where m: "\<bar>m\<bar> < 2 ^ 53" and e: "- 1074 \<le> e" "e \<le> 971"
    and q: "q = of_int m * pow2 e"
    by (auto simp: is_double_def pow2_def)
  define a where "a = \<bar>q\<bar>"
  have a: "a = of_int \<bar>m\<bar> * pow2 e"
    by (simp add: a_def q abs_mult abs_of_pos)
  from False have a0: "0 < a" by (simp add: a_def)
  from m have "(of_int \<bar>m\<bar> :: rat) < of_int (2 ^ 53)" by (simp only: of_int_less_iff)
  then have m53: "(of_int \<bar>m\<bar> :: rat) < pow2 53" by (simp add: pow2_def)
  then have up: "a < pow2 (53 + e)"
    unfolding a pow2_add by (simp add: mult_strict_right_mono)
  from ilog2_bounds[OF a0] up have "pow2 (ilog2 a) < pow2 (53 + e)" by linarith
  then have l: "ilog2 a - 52 \<le> e" using pow2_less by fastforce
  define E where "E = max (- 1074) (ilog2 a - 52)"
  from l e have E: "E \<le> e" by (simp add: E_def)
  have "a / pow2 E = of_int \<bar>m\<bar> * pow2 (e - E)"
    by (simp add: a pow2_diff)
  also from E have "pow2 (e - E) = of_int (2 ^ nat (e - E))"
    by (simp add: pow2_nat)
  finally have i: "a / pow2 E = of_int (\<bar>m\<bar> * 2 ^ nat (e - E))" by simp
  have "of_int (round_half_even (a / pow2 E)) * pow2 E = (a / pow2 E) * pow2 E"
    by (simp only: i round_half_even_int)
  also have "\<dots> = a"
  proof -
    have "pow2 E \<noteq> 0" using pow2_pos[of E] by linarith
    then show ?thesis by simp
  qed
  finally have r: "of_int (round_half_even (a / pow2 E)) * pow2 E = a" .
  from e have "pow2 (53 + e) \<le> pow2 1024" by (intro pow2_mono) simp
  with up have big: "\<not> pow2 1024 \<le> a" by linarith
  have "to_double q = Finite (if 0 < q then a else - a)"
    using False big r by (simp add: to_double_def Let_def flip: a_def E_def)
  then show ?thesis
    using False by (auto simp: a_def)
qed

lemma to_double_5: "to_double 5 = Finite 5"
proof (rule to_double_of_double)
  have "\<bar>5::int\<bar> < 2 ^ 53 \<and> - 1074 \<le> (0::int) \<and> (0::int) \<le> 971 \<and> (5::rat) = of_int 5 * pow2 0"
    by (simp add: pow2_def)
  then show "is_double 5" unfolding is_double_def by blast
qed

lemma to_double_big: "to_double 9007199254740993 = Finite 9007199254740992"
proof -
  have p: "pow2 53 = 9007199254740992" "pow2 54 = 18014398509481984" "pow2 1 = 2"
    by (simp_all add: pow2_def)
  have "ilog2 \<bar>9007199254740993\<bar> = 53"
    by (rule ilog2_unique) (simp_all add: p)
  moreover have "\<lfloor>(9007199254740993::rat) / 2\<rfloor> = 4503599627370496"
    by (rule floor_unique) simp_all
  then have "round_half_even (9007199254740993 / 2) = 4503599627370496"
    by (simp add: round_half_even_def Let_def)
  moreover have "\<not> pow2 1024 \<le> 9007199254740992"
    by (simp add: pow2_def)
  ultimately show ?thesis
    by (simp add: to_double_def Let_def p)
qed

section \<open>Round trip of an event\<close>

lemma find_append_fresh:
  assumes "\<forall>x \<in> set xs. \<not> P x" and "P y"
  shows "find P (xs @ [y]) = Some y"
  using assms by (induction xs) simp_all

lemma createEvent_then_getEvent:
  assumes "fst (createEvent now s req) = Response 201 (EventCreated rid n)"
  shows "\<exists>row. getEvent (snd (createEvent now s req)) (Some rid) = Response 200 (EventRow row)
     \<and> event_id row = rid
     \<and> JStr (creatorEmail row) = body_creatorEmail req
     \<and> JStr (eventName row) = body_eventName req
     \<and> map_option JStr (description row) = Some (body_description req)
     \<and> JNum (of_int (targetedAttendees row)) = body_targetedAttendees req
     \<and> map_option JStr (eventDate row) = Some (body_eventDate req)
     \<and> map_option JStr (eventStartTime row) = Some (body_eventStartTime req)
     \<and> map_option JStr (eventEndTime row) = Some (body_eventEndTime req)
     \<and> status row = Created \<and> created_at row = now"
proof -
  from createEvent_cases[of now s req] assms
  have nr: "next_rowid (events_seq s) (map event_id (events s)) = Some rid"
    and ty: "typeof (body_creatorEmail req) = TString" "typeof (body_eventName req) = TString"
      "typeof (body_description req) = TString" "typeof (body_eventDate req) = TString"
      "typeof (body_eventStartTime req) = TString" "typeof (body_eventEndTime req) = TString"
      "typeof (body_targetedAttendees req) = TNumber"
    and int: "isInteger (num_of (body_targetedAttendees req))"
    and ev: "events (snd (createEvent now s req)) = events s @
             [\<lparr>event_id = rid, creatorEmail = str_of (body_creatorEmail req),
               eventName = str_of (body_eventName req),
               description = Some (str_of (body_description req)),
               targetedAttendees = integer_of (num_of (body_targetedAttendees req)),
               eventDate = Some (str_of (body_eventDate req)),
               eventStartTime = Some (str_of (body_eventStartTime req)),
               eventEndTime = Some (str_of (body_eventEndTime req)),
               eventDuration = None, status = Created, created_at = now,
               attendingCount = Some 0, notAttendingCount = Some 0,
               maybeCount = Some 0, pendingCount = Some 0\<rparr>]"
    by auto
  from next_rowid_fresh[OF nr] have "\<forall>e \<in> set (events s). \<not> id_matches (Some rid) e"
    by (auto simp: id_matches_def)
  then have "getEvent (snd (createEvent now s req)) (Some rid) = Response 200 (EventRow
             \<lparr>event_id = rid, creatorEmail = str_of (body_creatorEmail req),
               eventName = str_of (body_eventName req),
               description = Some (str_of (body_description req)),
               targetedAttendees = integer_of (num_of (body_targetedAttendees req)),
               eventDate = Some (str_of (body_eventDate req)),
               eventStartTime = Some (str_of (body_eventStartTime req)),
               eventEndTime = Some (str_of (body_eventEndTime req)),
               eventDuration = None, status = Created, created_at = now,
               attendingCount = Some 0, notAttendingCount = Some 0,
               maybeCount = Some 0, pendingCount = Some 0\<rparr>)"
    unfolding getEvent_def ev
    by (subst find_append_fresh) (simp_all add: id_matches_def)
  moreover from int have "Finite (of_int (integer_of (num_of (body_targetedAttendees req))))
       = num_of (body_targetedAttendees req)"
    by (cases "num_of (body_targetedAttendees req)") (simp_all only: isInteger.simps integer_of.simps)
  then have "JNum (of_int (integer_of (num_of (body_targetedAttendees req))))
       = body_targetedAttendees req"
    by (simp only: typeof_number[OF ty(7)])
  ultimately show ?thesis
    by (simp add: typeof_string[OF ty(1)] typeof_string[OF ty(2)] typeof_string[OF ty(3)]
          typeof_string[OF ty(4)] typeof_string[OF ty(5)] typeof_string[OF ty(6)])
qed

lemma express_json_string: "express_json v = JStr t \<Longrightarrow> v = BString t"
  by (cases v) simp_all

lemma express_json_number:
  "express_json v = JNum x \<Longrightarrow> \<exists>q. v = BNumber q \<and> to_double q = Finite x"
  by (cases v) simp_all

lemma parse_demo_body_5:
  "parse_create_event (demo_body 5) = demo_create (JNum 5) (JStr ''2025-09-01'')"
  by (simp add: parse_create_event_def demo_body_def demo_create_def to_double_5)

lemma parse_demo_body_big:
  "parse_create_event (demo_body 9007199254740993)
     = demo_create (JNum 9007199254740992) (JStr ''2025-09-01'')"
  by (simp add: parse_create_event_def demo_body_def demo_create_def to_double_big)

text \<open>
  Claim C9, as amended (round trip). When \<open>POST /api/create-event\<close> has answered 201 with an
  event id, \<open>getEvent\<close> with that id on the resulting store answers 200 with a row that has
  this id, the six submitted strings unchanged, as \<open>targetedAttendees\<close> the IEEE double
  nearest to the submitted number (the submitted number itself whenever that is such a
  double), status \<open>Created\<close> and the time of the insert as \<open>created_at\<close>.
\<close>

theorem create_then_get:
  assumes "fst (post_create_event now s b) = Response 201 (EventCreated rid n)"
  shows "\<exists>row q. getEvent (snd (post_create_event now s b)) (Some rid) = Response 200 (EventRow row)
     \<and> event_id row = rid
     \<and> sent_creatorEmail b = BString (creatorEmail row)
     \<and> sent_eventName b = BString (eventName row)
     \<and> map_option BString (description row) = Some (sent_description b)
     \<and> sent_targetedAttendees b = BNumber q
     \<and> to_double q = Finite (of_int (targetedAttendees row))
     \<and> (is_double q \<longrightarrow> of_int (targetedAttendees row) = q)
     \<and> map_option BString (eventDate row) = Some (sent_eventDate b)
     \<and> map_option BString (eventStartTime row) = Some (sent_eventStartTime b)
     \<and> map_option BString (eventEndTime row) = Some (sent_eventEndTime b)
     \<and> status row = Created \<and> created_at row = now"
proof -
  from assms have "fst (createEvent now s (parse_create_event b)) = Response 201 (EventCreated rid n)"
    by (simp add: post_create_event_def)
  from createEvent_then_getEvent[OF this] obtain row where
    g: "getEvent (snd (post_create_event now s b)) (Some rid) = Response 200 (EventRow row)"
    and r: "event_id row = rid"
      "JStr (creatorEmail row) = express_json (sent_creatorEmail b)"
      "JStr (eventName row) = express_json (sent_eventName b)"
      "map_option JStr (description row) = Some (express_json (sent_description b))"
      "JNum (of_int (targetedAttendees row)) = express_json (sent_targetedAttendees b)"
      "map_option JStr (eventDate row) = Some (express_json (sent_eventDate b))"
      "map_option JStr (eventStartTime row) = Some (express_json (sent_eventStartTime b))"
      "map_option JStr (eventEndTime row) = Some (express_json (sent_eventEndTime b))"
      "status row = Created" "created_at row = now"
    by (auto simp: post_create_event_def parse_create_event_def)
  have t: "map_option BString x = Some v" if "map_option JStr x = Some (express_json v)" for x v
    using that by (cases x; cases v) simp_all
  from r(5) obtain q where q: "sent_targetedAttendees b = BNumber q"
    "to_double q = Finite (of_int (targetedAttendees row))"
    using express_json_number[of "sent_targetedAttendees b"] by metis
  have i: "is_double q \<longrightarrow> of_int (targetedAttendees row) = q"
    using to_double_of_double[of q] q(2) by simp
  from r(2) have c1: "sent_creatorEmail b = BString (creatorEmail row)"
    by (rule express_json_string[OF sym])
  from r(3) have c2: "sent_eventName b = BString (eventName row)"
    by (rule express_json_string[OF sym])
  from r(4) have c3: "map_option BString (description row) = Some (sent_description b)"
    by (rule t)
  from r(6) have c4: "map_option BString (eventDate row) = Some (sent_eventDate b)"
    by (rule t)
  from r(7) have c5: "map_option BString (eventStartTime row) = Some (sent_eventStartTime b)"
    by (rule t)
  from r(8) have c6: "map_option BString (eventEndTime row) = Some (sent_eventEndTime b)"
    by (rule t)
  from g r(1,9,10) q i c1 c2 c3 c4 c5 c6 show ?thesis by blast
qed

theorem create_then_get_witness:
  "fst (post_create_event 100 demo_store (demo_body 5)) = Response 201 (EventCreated 2 1)
   \<and> is_double 5
   \<and> (\<exists>row. getEvent (snd (post_create_event 100 demo_store (demo_body 5))) (Some 2)
               = Response 200 (EventRow row)
        \<and> event_id row = 2 \<and> creatorEmail row = ''org@x.com'' \<and> eventName row = ''Launch''
        \<and> description row = Some ''Release party'' \<and> targetedAttendees row = 5
        \<and> eventDate row = Some ''2025-09-01'' \<and> eventStartTime row = Some ''18:00''
        \<and> eventEndTime row = Some ''20:00'' \<and> status row = Created \<and> created_at row = 100)"
proof -
  have "fst (createEvent 100 demo_store (demo_create (JNum 5) (JStr ''2025-09-01'')))
     = Response 201 (EventCreated 2 1)"
    by code_simp
  then have h: "fst (post_create_event 100 demo_store (demo_body 5))
     = Response 201 (EventCreated 2 1)"
    by (simp add: post_create_event_def parse_demo_body_5)
  have d: "is_double 5"
  proof -
    have "\<bar>5::int\<bar> < 2 ^ 53 \<and> - 1074 \<le> (0::int) \<and> (0::int) \<le> 971 \<and> (5::rat) = of_int 5 * pow2 0"
      by (simp add: pow2_def)
    then show ?thesis unfolding is_double_def by blast
  qed
  from create_then_get [OF h] obtain row q where
    g: "getEvent (snd (post_create_event 100 demo_store (demo_body 5))) (Some 2)
               = Response 200 (EventRow row)"
    and r: "event_id row = 2" "sent_creatorEmail (demo_body 5) = BString (creatorEmail row)"
      "sent_eventName (demo_body 5) = BString (eventName row)"
      "map_option BString (description row) = Some (sent_description (demo_body 5))"
      "sent_targetedAttendees (demo_body 5) = BNumber q"
      "is_double q \<longrightarrow> of_int (targetedAttendees row) = q"
      "map_option BString (eventDate row) = Some (sent_eventDate (demo_body 5))"
      "map_option BString (eventStartTime row) = Some (sent_eventStartTime (demo_body 5))"
      "map_option BString (eventEndTime row) = Some (sent_eventEndTime (demo_body 5))"
      "status row = Created" "created_at row = 100"
    by blast
  from r(5) have "q = 5" by (simp add: demo_body_def)
  with r(6) d have "(of_int (targetedAttendees row) :: rat) = of_int 5" by simp
  then have ta: "targetedAttendees row = 5" by (simp only: of_int_eq_iff)
  have m: "map_option BString x = Some (BString y) \<Longrightarrow> x = Some y" for x y
    by (cases x) simp_all
  from r(2,3) have "creatorEmail row = ''org@x.com''" "eventName row = ''Launch''"
    by (simp_all add: demo_body_def)
  moreover from r(4,7,8,9) have "description row = Some ''Release party''"
    "eventDate row = Some ''2025-09-01''" "eventStartTime row = Some ''18:00''"
    "eventEndTime row = Some ''20:00''"
    by (auto simp: demo_body_def dest: m)
  ultimately show ?thesis
    using h d g r(1,10,11) ta by blast
qed

text \<open>
  The claim as first stated fails: a body with \<open>targetedAttendees\<close> 9007199254740993 is
  answered 201, and the event read back carries 9007199254740992.
\<close>

theorem create_then_get_counterexample:
  "fst (post_create_event 100 demo_store (demo_body 9007199254740993))
     = Response 201 (EventCreated 2 1)
   \<and> sent_targetedAttendees (demo_body 9007199254740993) = BNumber 9007199254740993
   \<and> map_option targetedAttendees
        (event_of (getEvent (snd (post_create_event 100 demo_store (demo_body 9007199254740993)))
           (Some 2)))
      = Some 9007199254740992"
proof -
  have "fst (createEvent 100 demo_store (demo_create (JNum 9007199254740992) (JStr ''2025-09-01'')))
     = Response 201 (EventCreated 2 1)"
    by code_simp
  moreover have "map_option targetedAttendees
        (event_of (getEvent (snd (createEvent 100 demo_store
           (demo_create (JNum 9007199254740992) (JStr ''2025-09-01'')))) (Some 2)))
      = Some 9007199254740992"
    by code_simp
  ultimately show ?thesis
    by (simp add: post_create_event_def parse_demo_body_big) (simp add: demo_body_def)
qed

section \<open>The statistics query\<close>

text \<open>
  Claim C6 (events with counts). The claim expects 200 with one record per event for every
  store. The query names the column \<open>eventTime\<close>, which the \<open>events\<close> table does not have
  (it is \<open>eventStartTime\<close>), so preparing it fails and the handler answers 500 for every
  store.
\<close>

theorem events_with_counts_fails:
  "listEventsWithCounts s = Response 500 StatisticsFailed"
  by (simp add: listEventsWithCounts_def counts_select_list_def events_columns_def)

end
